theory Spec2Isabelle
  imports Complex_Main "HOL-Library.Multiset" "HOL-Library.AList"
begin

section \<open>JavaScript values\<close>

text \<open>
  JavaScript values are the JSON values; \<open>undefined\<close> is \<open>None\<close> wherever a value may
  be missing. An object is the list of its own properties in insertion order.
\<close>

datatype json =
  JNull | JBool bool | JNum real | JStr string | JArr "json list"
  | JObj "(string \<times> json) list"

subsection \<open>Numbers\<close>

text \<open>
  A JavaScript number is an IEEE 754 double. \<open>round_double\<close> rounds a real to the
  nearest double, ties to even: \<open>binade x\<close> is the exponent of \<open>x\<close> (at least -1022,
  below which doubles are subnormal), the doubles with that exponent are the
  multiples of \<open>2 powi (binade x - 52)\<close>, and \<open>round_half_even\<close> picks the nearest
  multiple. Results of \<open>2 ^ 1024\<close> and above, which a double cannot hold, do not
  occur in the service. \<open>double_mul\<close> is the operator \<open>*\<close> on two numbers.
\<close>

definition round_half_even :: "real \<Rightarrow> int" where
  "round_half_even q =
     (let f = \<lfloor>q\<rfloor>; d = q - of_int f
      in if d < 1/2 then f else if 1/2 < d then f + 1 else if even f then f else f + 1)"

fun binade_from :: "nat \<Rightarrow> int \<Rightarrow> real \<Rightarrow> int" where
  "binade_from 0 e x = e"
| "binade_from (Suc n) e x = (if 2 powi e \<le> x then e else binade_from n (e - 1) x)"

definition binade :: "real \<Rightarrow> int" where
  "binade x = binade_from 2045 1023 x"

definition round_double :: "real \<Rightarrow> real" where
  "round_double x =
     sgn x * of_int (round_half_even (\<bar>x\<bar> / 2 powi (binade \<bar>x\<bar> - 52)))
           * 2 powi (binade \<bar>x\<bar> - 52)"

definition double_mul :: "real \<Rightarrow> real \<Rightarrow> real" where
  "double_mul a b = round_double (a * b)"

definition is_double :: "real \<Rightarrow> bool" where
  \<comment> \<open>the real is a double: rounding leaves it as it is\<close>
  "is_double x = (round_double x = x)"

text \<open>
  \<open>js_String\<close> is \<open>String\<close> on an integral number; \<open>decimal_value\<close> reads a string
  of digits back as the number it denotes.
\<close>

fun digits10 :: "nat \<Rightarrow> string" where
  "digits10 n = (if n < 10 then [''0123456789'' ! n]
                 else digits10 (n div 10) @ [''0123456789'' ! (n mod 10)])"

declare digits10.simps [simp del]

definition js_String :: "int \<Rightarrow> string" where
  "js_String i = (if i < 0 then CHR ''-'' # digits10 (nat (- i)) else digits10 (nat i))"

definition digit_value :: "char \<Rightarrow> nat" where
  "digit_value c = of_char c - 48"

definition decimal_value :: "string \<Rightarrow> nat" where
  "decimal_value s = foldl (\<lambda>a c. 10 * a + digit_value c) 0 s"

subsection \<open>Objects\<close>

text \<open>
  \<open>js_spread v\<close> is the list of properties that \<open>{...v}\<close> copies: the own
  properties of an object, the indexed elements of an array or a string, and nothing
  for any other value. Setting a property of an object literal is \<open>AList.update\<close>.
\<close>

definition js_spread :: "json \<Rightarrow> (string \<times> json) list" where
  "js_spread v =
     (case v of
        JObj kvs \<Rightarrow> kvs
      | JArr xs \<Rightarrow> zip (map (\<lambda>i. js_String (int i)) [0 ..< length xs]) xs
      | JStr s \<Rightarrow> zip (map (\<lambda>i. js_String (int i)) [0 ..< length s]) (map (\<lambda>c. JStr [c]) s)
      | _ \<Rightarrow> [])"

definition js_strings :: "json list \<Rightarrow> string list" where
  \<comment> \<open>the elements of an array that are strings, in order\<close>
  "js_strings xs = concat (map (\<lambda>x. case x of JStr s \<Rightarrow> [s] | _ \<Rightarrow> []) xs)"

section \<open>Reading a stored game state\<close>

text \<open>
  \<open>parseGameState\<close> works on values that are not yet typed: what the driver hands
  over for the \<open>game_state\<close> column is \<open>null\<close>, a string, or an object (given by
  its fields) that is cast to \<open>GameState\<close> without a check. \<open>JSON.parse\<close> (\<open>None\<close>
  when it throws) and \<open>String\<close> are the platform's functions and are parameters of
  the model.
\<close>

datatype stored = StoredNull | StoredString string | StoredObject "(string \<times> json) list"

datatype js_exn = SyntaxError | TypeError

definition get_prop :: "json \<Rightarrow> string \<Rightarrow> js_exn + json option" where
  \<comment> \<open>\<open>parsed.key\<close> for the keys \<open>playerOrder\<close> and \<open>tiles\<close>, which no prototype defines\<close>
  "get_prop v key =
     (case v of
        JNull \<Rightarrow> Inl TypeError
      | JObj kvs \<Rightarrow> Inr (map_of kvs key)
      | _ \<Rightarrow> Inr None)"

definition empty_state :: json where
  "empty_state = JObj [(''playerOrder'', JArr []), (''tiles'', JArr [])]"

definition parse_body :: "(string \<Rightarrow> json option) \<Rightarrow> (json \<Rightarrow> string) \<Rightarrow> string \<Rightarrow> js_exn + json" where
  \<comment> \<open>the \<open>try\<close> block\<close>
  "parse_body json_parse to_String s =
     (case json_parse s of
        None \<Rightarrow> Inl SyntaxError
      | Some parsed \<Rightarrow>
          (case get_prop parsed ''playerOrder'' of
             Inl e \<Rightarrow> Inl e
           | Inr po \<Rightarrow>
               (case get_prop parsed ''tiles'' of
                  Inl e \<Rightarrow> Inl e
                | Inr ti \<Rightarrow>
                    Inr (JObj
                      [(''playerOrder'',
                        (case po of Some (JArr xs) \<Rightarrow> JArr (map (\<lambda>x. JStr (to_String x)) xs)
                                  | _ \<Rightarrow> JArr [])),
                       (''tiles'',
                        (case ti of Some (JArr ts) \<Rightarrow> JArr ts | _ \<Rightarrow> JArr []))]))))"

definition parseGameState :: "(string \<Rightarrow> json option) \<Rightarrow> (json \<Rightarrow> string) \<Rightarrow> stored \<Rightarrow> json" where
  "parseGameState json_parse to_String v =
     (case v of
        StoredNull \<Rightarrow> empty_state
      | StoredString s \<Rightarrow>
          if s = [] then empty_state
          else (case parse_body json_parse to_String s of
                  Inl e \<Rightarrow> empty_state
                | Inr state \<Rightarrow> state)
      | StoredObject kvs \<Rightarrow> JObj kvs)"



definition prop_of :: "json \<Rightarrow> string \<Rightarrow> json option" where
  \<comment> \<open>the field \<open>key\<close> of a value, \<open>None\<close> when there is none\<close>
  "prop_of v key = (case v of JObj kvs \<Rightarrow> map_of kvs key | _ \<Rightarrow> None)"

definition json_parse_example :: "string \<Rightarrow> json option" where
  \<comment> \<open>\<open>JSON.parse\<close> on three texts; on every other text it is taken to throw\<close>
  "json_parse_example s =
     (if s = ''null'' then Some JNull
      else if s = ''7'' then Some (JNum 7)
      else if s = ''[]'' then Some (JArr [])
      else None)"

section \<open>Data model of the games service\<close>

text \<open>
  The service keeps two SQL tables, \<open>games\<close> and \<open>game_players\<close>. A table is the
  list of its rows in insertion order (which is the order of \<open>created_at\<close>); the
  AUTO_INCREMENT counters of the two primary keys are part of the database state.
  Timestamps are read by no decision of the service other than the \<open>ORDER BY\<close> of
  \<open>fetchPlayersByGameIds\<close>, so rows carry no timestamp field and the sort is stable
  over the table order. A comparison of strings in a \<open>WHERE\<close> clause is equality of
  the strings. The \<open>game_state\<close> column is of type JSON: a document written with
  \<open>JSON.stringify\<close> comes back from the driver as the object it denotes.
\<close>

datatype GamePlayerStatus = admin | waiting | confirmed

datatype GameStatus = not_started | started | finished

datatype HexTerrain = wood | wheat | sheep | brick | ore | desert

record GameStateTile =
  tile_id :: nat
  terrain :: HexTerrain
  token :: "int option"
  hasRobber :: "bool option"

record PlayerRow =
  p_id :: nat
  game_id :: nat
  player_email :: string
  p_status :: GamePlayerStatus
  is_current :: bool

record GameRow =
  g_id :: nat
  g_name :: string
  join_code :: string
  created_by :: string
  g_status :: GameStatus
  game_state :: stored

record GameWithPlayers =
  gw_id :: nat
  gw_name :: string
  joinCode :: string
  createdBy :: string
  status :: GameStatus
  gameState :: json
  players :: "PlayerRow list"

record db =
  games :: "GameRow list"
  game_players :: "PlayerRow list"
  next_game_id :: nat
  next_player_id :: nat

text \<open>
  The failures of the service. An \<open>ActionResult\<close> with \<open>ok = false\<close> is the error
  named after its message; the two \<open>throw\<close> statements are \<open>ExhaustedError\<close>
  (no unique join code) and \<open>LoadFailed\<close> (game not found after creation);
  \<open>JsTypeError\<close> is a \<open>TypeError\<close> that the platform throws and no handler of the
  service catches.
  \<^item> \<open>NotAuthorized\<close>: "You are not an admin for this game."
  \<^item> \<open>NotFound\<close>: "Game not found.", "Game not found with that code.",
    "Player not found for this game.", "Waiting request not found.",
    "You are not part of this game."
  \<^item> \<open>Forbidden\<close>: "Cannot remove an admin from their own game.",
    "Admins cannot leave their own game. Delete the game instead."
  \<^item> \<open>InvalidPhase\<close>: "Cannot reorder after game start.",
    "Layout can be created only before the game starts."
  \<^item> \<open>InvalidOrder\<close>: "Order must include all confirmed players exactly once."
\<close>

datatype error =
  NotAuthorized | NotFound | Forbidden | InvalidPhase | InvalidOrder
  | ExhaustedError | LoadFailed | JsTypeError

section \<open>Queries\<close>

definition fetchPlayers :: "db \<Rightarrow> nat \<Rightarrow> PlayerRow list" where
  \<comment> \<open>\<open>ORDER BY status = 'admin' DESC, status = 'confirmed' DESC, created_at ASC\<close>\<close>
  "fetchPlayers d gameId =
     (let rows = filter (\<lambda>p. game_id p = gameId) (game_players d)
      in filter (\<lambda>p. p_status p = admin) rows
         @ filter (\<lambda>p. p_status p = confirmed) rows
         @ filter (\<lambda>p. p_status p = waiting) rows)"

definition isAdmin :: "db \<Rightarrow> nat \<Rightarrow> string \<Rightarrow> bool" where
  "isAdmin d gameId email =
     (filter (\<lambda>p. game_id p = gameId \<and> player_email p = email \<and> p_status p = admin)
        (game_players d) \<noteq> [])"

definition getPlayer :: "db \<Rightarrow> nat \<Rightarrow> string \<Rightarrow> PlayerRow option" where
  "getPlayer d gameId email =
     find (\<lambda>p. game_id p = gameId \<and> player_email p = email) (game_players d)"

definition mapGameRow ::
  "(string \<Rightarrow> json option) \<Rightarrow> (json \<Rightarrow> string) \<Rightarrow> GameRow \<Rightarrow> PlayerRow list
   \<Rightarrow> GameWithPlayers" where
  "mapGameRow json_parse to_String row ps =
     \<lparr>gw_id = g_id row, gw_name = g_name row, joinCode = join_code row,
      createdBy = created_by row, status = g_status row,
      gameState = parseGameState json_parse to_String (game_state row), players = ps\<rparr>"

definition getGame ::
  "(string \<Rightarrow> json option) \<Rightarrow> (json \<Rightarrow> string) \<Rightarrow> db \<Rightarrow> nat \<Rightarrow> GameWithPlayers option" where
  "getGame json_parse to_String d gameId =
     (case find (\<lambda>g. g_id g = gameId) (games d) of
        None \<Rightarrow> None
      | Some row \<Rightarrow> Some (mapGameRow json_parse to_String row (fetchPlayers d gameId)))"

definition getGameByJoinCode ::
  "(string \<Rightarrow> json option) \<Rightarrow> (json \<Rightarrow> string) \<Rightarrow> db \<Rightarrow> string \<Rightarrow> GameWithPlayers option" where
  "getGameByJoinCode json_parse to_String d code =
     (case find (\<lambda>g. join_code g = code) (games d) of
        None \<Rightarrow> None
      | Some row \<Rightarrow>
          Some (mapGameRow json_parse to_String row (fetchPlayers d (g_id row))))"

section \<open>Membership operations\<close>

text \<open>
  Every operation returns its result together with the database it leaves behind.
  \<open>affectedRows\<close> of an \<open>UPDATE\<close> is the number of rows the \<open>WHERE\<close> clause
  matches (the mysql2 client connects with the \<open>FOUND_ROWS\<close> flag).
\<close>

definition approvePlayer :: "db \<Rightarrow> nat \<Rightarrow> string \<Rightarrow> string \<Rightarrow> (error + unit) \<times> db" where
  "approvePlayer d gameId targetEmail adminEmail =
     (if \<not> isAdmin d gameId adminEmail then (Inl NotAuthorized, d)
      else
        let hit = (\<lambda>p. game_id p = gameId \<and> player_email p = targetEmail);
            affectedRows = length (filter hit (game_players d));
            d' = d\<lparr>game_players :=
                     map (\<lambda>p. if hit p then p\<lparr>p_status := confirmed\<rparr> else p) (game_players d)\<rparr>
        in if affectedRows = 0 then (Inl NotFound, d') else (Inr (), d'))"

definition rejectPlayer :: "db \<Rightarrow> nat \<Rightarrow> string \<Rightarrow> string \<Rightarrow> (error + unit) \<times> db" where
  "rejectPlayer d gameId targetEmail adminEmail =
     (if \<not> isAdmin d gameId adminEmail then (Inl NotAuthorized, d)
      else
        let hit = (\<lambda>p. game_id p = gameId \<and> player_email p = targetEmail
                         \<and> p_status p = waiting);
            affectedRows = length (filter hit (game_players d));
            d' = d\<lparr>game_players := filter (\<lambda>p. \<not> hit p) (game_players d)\<rparr>
        in if affectedRows = 0 then (Inl NotFound, d') else (Inr (), d'))"

definition removePlayer :: "db \<Rightarrow> nat \<Rightarrow> string \<Rightarrow> string \<Rightarrow> (error + unit) \<times> db" where
  "removePlayer d gameId targetEmail adminEmail =
     (if \<not> isAdmin d gameId adminEmail then (Inl NotAuthorized, d)
      else case getPlayer d gameId targetEmail of
        None \<Rightarrow> (Inl NotFound, d)
      | Some target \<Rightarrow>
          if p_status target = admin then (Inl Forbidden, d)
          else (Inr (),
                d\<lparr>game_players := filter (\<lambda>p. p_id p \<noteq> p_id target) (game_players d)\<rparr>))"

text \<open>
  Modelled from the spec: the foreign key of \<open>game_players.game_id\<close> is declared in
  a migration that is not part of the sources; deleting a session "cascades to delete
  all its Membership rows". The cascade runs for the game rows the \<open>DELETE\<close> removes.
\<close>

definition deleteGame :: "db \<Rightarrow> nat \<Rightarrow> string \<Rightarrow> (error + unit) \<times> db" where
  "deleteGame d gameId adminEmail =
     (if \<not> isAdmin d gameId adminEmail then (Inl NotAuthorized, d)
      else
        let affectedRows = length (filter (\<lambda>g. g_id g = gameId) (games d))
        in if affectedRows = 0 then (Inl NotFound, d)
           else (Inr (),
                 d\<lparr>games := filter (\<lambda>g. g_id g \<noteq> gameId) (games d),
                   game_players := filter (\<lambda>p. game_id p \<noteq> gameId) (game_players d)\<rparr>))"

definition leaveGame :: "db \<Rightarrow> nat \<Rightarrow> string \<Rightarrow> (error + unit) \<times> db" where
  "leaveGame d gameId email =
     (case getPlayer d gameId email of
        None \<Rightarrow> (Inl NotFound, d)
      | Some player \<Rightarrow>
          if p_status player = admin then (Inl Forbidden, d)
          else (Inr (),
                d\<lparr>game_players := filter (\<lambda>p. p_id p \<noteq> p_id player) (game_players d)\<rparr>))"

text \<open>
  Modelled from the spec: the migration that adds \<open>is_current\<close> is not part of the
  sources. \<open>requestJoinGame\<close> inserts without a value for it, and the row it inserts
  is not current (only game creation and \<open>setCurrentGameForUser\<close> set the flag).
\<close>

definition requestJoinGame ::
  "(string \<Rightarrow> json option) \<Rightarrow> (json \<Rightarrow> string) \<Rightarrow> db \<Rightarrow> string \<Rightarrow> string
   \<Rightarrow> (error + GamePlayerStatus) \<times> db" where
  "requestJoinGame json_parse to_String d code email =
     (case getGameByJoinCode json_parse to_String d code of
        None \<Rightarrow> (Inl NotFound, d)
      | Some game \<Rightarrow>
          (case getPlayer d (gw_id game) email of
             Some existing \<Rightarrow> (Inr (p_status existing), d)
           | None \<Rightarrow>
               (Inr waiting,
                d\<lparr>game_players := game_players d @
                     [\<lparr>p_id = next_player_id d, game_id = gw_id game, player_email = email,
                       p_status = waiting, is_current = False\<rparr>],
                  next_player_id := Suc (next_player_id d)\<rparr>)))"

section \<open>Current game of a user\<close>

text \<open>
  The two \<open>UPDATE\<close> statements run inside one transaction; no statement of the
  model fails, so the transaction always commits.
\<close>

definition setCurrentGameForUser :: "db \<Rightarrow> nat \<Rightarrow> string \<Rightarrow> (error + unit) \<times> db" where
  "setCurrentGameForUser d gameId email =
     (case getPlayer d gameId email of
        None \<Rightarrow> (Inl NotFound, d)
      | Some membership \<Rightarrow>
          let cleared = map (\<lambda>p. if player_email p = email then p\<lparr>is_current := False\<rparr> else p)
                          (game_players d);
              marked = map (\<lambda>p. if game_id p = gameId \<and> player_email p = email
                                 then p\<lparr>is_current := True\<rparr> else p) cleared
          in (Inr (), d\<lparr>game_players := marked\<rparr>))"

section \<open>Join codes and game creation\<close>

text \<open>
  \<open>Math.random()\<close> is a sequence of numbers: \<open>rnd k\<close> is the value of the \<open>k\<close>-th
  call an operation makes. Its contract, a double that is at least 0 and less than
  1, is a hypothesis of the statements that need it.
\<close>

definition candidate_code :: "real \<Rightarrow> string" where
  \<comment> \<open>\<open>String(Math.floor(Math.random() * 900000) + 100000)\<close>\<close>
  "candidate_code r = js_String (\<lfloor>double_mul r 900000\<rfloor> + 100000)"

definition code_in_use :: "db \<Rightarrow> string \<Rightarrow> bool" where
  \<comment> \<open>\<open>SELECT id FROM games WHERE join_code = ? LIMIT 1\<close> returns a row\<close>
  "code_in_use d code = (filter (\<lambda>g. join_code g = code) (games d) \<noteq> [])"

function generateJoinCode_from :: "db \<Rightarrow> (nat \<Rightarrow> real) \<Rightarrow> nat \<Rightarrow> error + string" where
  "generateJoinCode_from d rnd attempt =
     (if attempt < 10
      then (let code = candidate_code (rnd attempt)
            in if \<not> code_in_use d code then Inr code
               else generateJoinCode_from d rnd (attempt + 1))
      else Inl ExhaustedError)"
  by pat_completeness auto
termination
  by (relation "measure (\<lambda>(d, rnd, attempt). 10 - attempt)") auto

declare generateJoinCode_from.simps [simp del]

definition generateJoinCode :: "db \<Rightarrow> (nat \<Rightarrow> real) \<Rightarrow> error + string" where
  "generateJoinCode d rnd = generateJoinCode_from d rnd 0"

definition createGame ::
  "(string \<Rightarrow> json option) \<Rightarrow> (json \<Rightarrow> string) \<Rightarrow> db \<Rightarrow> (nat \<Rightarrow> real) \<Rightarrow> string \<Rightarrow> string
   \<Rightarrow> (error + GameWithPlayers) \<times> db" where
  "createGame json_parse to_String d rnd name creatorEmail =
     (case generateJoinCode d rnd of
        Inl e \<Rightarrow> (Inl e, d)
      | Inr code \<Rightarrow>
          let initialState = [(''playerOrder'', JArr [JStr creatorEmail]), (''tiles'', JArr [])];
              markCurrent = (filter (\<lambda>p. player_email p = creatorEmail \<and> is_current p)
                               (game_players d) = []);
              gameId = next_game_id d;
              d1 = d\<lparr>games := games d @
                        [\<lparr>g_id = gameId, g_name = name, join_code = code,
                          created_by = creatorEmail, g_status = not_started,
                          game_state = StoredObject initialState\<rparr>],
                     next_game_id := Suc gameId\<rparr>;
              d2 = d1\<lparr>game_players := game_players d1 @
                        [\<lparr>p_id = next_player_id d1, game_id = gameId,
                          player_email = creatorEmail, p_status = admin,
                          is_current = markCurrent\<rparr>],
                      next_player_id := Suc (next_player_id d1)\<rparr>
          in case getGame json_parse to_String d2 gameId of
               None \<Rightarrow> (Inl LoadFailed, d2)
             | Some game \<Rightarrow> (Inr game, d2))"

section \<open>Player order\<close>

definition normalizePlayerOrder :: "string list \<Rightarrow> string list \<Rightarrow> string list" where
  "normalizePlayerOrder currentOrder confirmedEmails =
     (let cleaned = filter (\<lambda>email. email \<in> set confirmedEmails) currentOrder
      in fold (\<lambda>email cleaned. if email \<notin> set cleaned then cleaned @ [email] else cleaned)
           confirmedEmails cleaned)"

text \<open>
  \<open>saveGameState\<close> is given the properties of the object it serialises.
\<close>

definition saveGameState :: "db \<Rightarrow> nat \<Rightarrow> (string \<times> json) list \<Rightarrow> db" where
  "saveGameState d gameId state =
     d\<lparr>games := map (\<lambda>g. if g_id g = gameId then g\<lparr>game_state := StoredObject state\<rparr> else g)
                   (games d)\<rparr>"

definition eligible_emails :: "GameWithPlayers \<Rightarrow> string list" where
  \<comment> \<open>\<open>game.players.filter(admin or confirmed).map(p => p.email)\<close>\<close>
  "eligible_emails game =
     map player_email
       (filter (\<lambda>p. p_status p = admin \<or> p_status p = confirmed) (players game))"

definition reorderPlayerOrder ::
  "(string \<Rightarrow> json option) \<Rightarrow> (json \<Rightarrow> string) \<Rightarrow> db \<Rightarrow> nat \<Rightarrow> string \<Rightarrow> string list
   \<Rightarrow> (error + unit) \<times> db" where
  "reorderPlayerOrder json_parse to_String d gameId adminEmail newOrder =
     (case getGame json_parse to_String d gameId of
        None \<Rightarrow> (Inl NotFound, d)
      | Some game \<Rightarrow>
          if status game \<noteq> not_started then (Inl InvalidPhase, d)
          else if \<not> isAdmin d gameId adminEmail then (Inl NotAuthorized, d)
          else
            let confirmedEmails = eligible_emails game;
                normalized = normalizePlayerOrder newOrder confirmedEmails
            in if length normalized \<noteq> length confirmedEmails
                  \<or> list_ex (\<lambda>email. email \<notin> set normalized) confirmedEmails
               then (Inl InvalidOrder, d)
               else (Inr (),
                     saveGameState d gameId
                       (AList.update ''playerOrder'' (JArr (map JStr normalized))
                          (js_spread (gameState game)))))"

section \<open>Game status\<close>

definition updateGameStatus ::
  "db \<Rightarrow> nat \<Rightarrow> string \<Rightarrow> GameStatus \<Rightarrow> (error + unit) \<times> db" where
  "updateGameStatus d gameId adminEmail st =
     (if \<not> isAdmin d gameId adminEmail then (Inl NotAuthorized, d)
      else
        let affectedRows = length (filter (\<lambda>g. g_id g = gameId) (games d));
            d' = d\<lparr>games := map (\<lambda>g. if g_id g = gameId then g\<lparr>g_status := st\<rparr> else g)
                               (games d)\<rparr>
        in if affectedRows = 0 then (Inl NotFound, d') else (Inr (), d'))"

section \<open>Board layout\<close>

text \<open>
  \<open>shuffle\<close> copies the list and walks \<open>i\<close> from the last index down to 1, swapping
  position \<open>i\<close> with position \<open>Math.floor(Math.random() * (i + 1))\<close>. The \<open>k\<close>-th
  iteration reads \<open>rnd k\<close>. For a draw that \<open>Math.random()\<close> can return that
  position is at most \<open>i\<close>; the model says nothing faithful about other draws.
\<close>

fun shuffle_from :: "(nat \<Rightarrow> real) \<Rightarrow> nat \<Rightarrow> nat \<Rightarrow> 'a list \<Rightarrow> 'a list" where
  "shuffle_from rnd k 0 arr = arr"
| "shuffle_from rnd k (Suc i) arr =
     (let j = nat \<lfloor>double_mul (rnd k) (real (Suc i + 1))\<rfloor>
      in shuffle_from rnd (Suc k) i (arr[Suc i := arr ! j, j := arr ! Suc i]))"

definition shuffle :: "(nat \<Rightarrow> real) \<Rightarrow> 'a list \<Rightarrow> 'a list" where
  "shuffle rnd items = shuffle_from rnd 0 (length items - 1) items"

definition terrains :: "HexTerrain list" where
  "terrains = replicate 4 wood @ replicate 4 wheat @ replicate 4 sheep
              @ replicate 3 brick @ replicate 3 ore @ [desert]"

definition tokens :: "int list" where
  "tokens = [2, 12, 3, 3, 4, 4, 5, 5, 6, 6, 8, 8, 9, 9, 10, 10, 11, 11]"

definition standard_terrains :: "HexTerrain list" where
  "standard_terrains =
     [ore, wheat, wood,
      brick, wood, wheat, brick,
      wheat, sheep, desert, ore, brick,
      wood, wheat, sheep, wood,
      brick, sheep, ore]"

definition standard_tokens :: "int list" where
  "standard_tokens =
     map the (filter (\<lambda>t. t \<noteq> None)
       [Some 10, Some 2, Some 9, Some 12, Some 6, Some 4, Some 10, Some 9, Some 11, None,
        Some 3, Some 8, Some 5, Some 4, Some 11, Some 8, Some 5, Some 6, Some 3])"

text \<open>
  The \<open>map\<close> over the terrains with \<open>shuffledTokens.shift()\<close>: the token list is
  threaded through, a desert takes none, and \<open>shift() ?? null\<close> on an empty list is
  \<open>null\<close>.
\<close>

fun assign_tiles :: "nat \<Rightarrow> HexTerrain list \<Rightarrow> int list \<Rightarrow> GameStateTile list" where
  "assign_tiles index [] toks = []"
| "assign_tiles index (t # ts) toks =
     (if t = desert
      then \<lparr>tile_id = index + 1, terrain = t, token = None, hasRobber = Some True\<rparr>
           # assign_tiles (index + 1) ts toks
      else (case toks of
              [] \<Rightarrow> \<lparr>tile_id = index + 1, terrain = t, token = None, hasRobber = Some False\<rparr>
                    # assign_tiles (index + 1) ts []
            | tok # rest \<Rightarrow>
                \<lparr>tile_id = index + 1, terrain = t, token = Some tok, hasRobber = Some False\<rparr>
                # assign_tiles (index + 1) ts rest))"

text \<open>
  A tile as the object the generator builds: \<open>{ id, terrain, token, hasRobber }\<close>.
\<close>

fun terrain_name :: "HexTerrain \<Rightarrow> string" where
  "terrain_name wood = ''wood''"
| "terrain_name wheat = ''wheat''"
| "terrain_name sheep = ''sheep''"
| "terrain_name brick = ''brick''"
| "terrain_name ore = ''ore''"
| "terrain_name desert = ''desert''"

definition tile_json :: "GameStateTile \<Rightarrow> json" where
  "tile_json t =
     JObj ([(''id'', JNum (real (tile_id t))),
            (''terrain'', JStr (terrain_name (terrain t))),
            (''token'', (case token t of None \<Rightarrow> JNull | Some n \<Rightarrow> JNum (real_of_int n)))]
           @ (case hasRobber t of None \<Rightarrow> [] | Some b \<Rightarrow> [(''hasRobber'', JBool b)]))"

text \<open>
  The object literal \<open>{ ...game.gameState, tiles, playerOrder: normalizePlayerOrder(\<dots>) }\<close>
  is evaluated left to right. \<open>game.gameState.playerOrder.filter\<close> is a call on
  whatever the stored state holds under \<open>playerOrder\<close>: it is the array method for
  an array, whose elements that are not strings are in no set of emails, and a
  \<open>TypeError\<close> for \<open>undefined\<close> or any other value; nothing has been saved then.
\<close>

definition generateGameLayout ::
  "(string \<Rightarrow> json option) \<Rightarrow> (json \<Rightarrow> string) \<Rightarrow> db \<Rightarrow> (nat \<Rightarrow> real) \<Rightarrow> nat \<Rightarrow> string
   \<Rightarrow> string option \<Rightarrow> (error + unit) \<times> db" where
  "generateGameLayout json_parse to_String d rnd gameId adminEmail preset =
     (case getGame json_parse to_String d gameId of
        None \<Rightarrow> (Inl NotFound, d)
      | Some game \<Rightarrow>
          if \<not> isAdmin d gameId adminEmail then (Inl NotAuthorized, d)
          else if status game \<noteq> not_started then (Inl InvalidPhase, d)
          else
            let shuffledTerrains =
                  (if preset = Some ''standard'' then standard_terrains
                   else shuffle rnd terrains);
                shuffledTokens =
                  (if preset = Some ''standard'' then standard_tokens
                   else shuffle (\<lambda>k. rnd (k + (length terrains - 1))) tokens);
                new_tiles = assign_tiles 0 shuffledTerrains shuffledTokens
            in (case get_prop (gameState game) ''playerOrder'' of
                  Inr (Some (JArr currentOrder)) \<Rightarrow>
                    let order = normalizePlayerOrder (js_strings currentOrder)
                                  (map player_email
                                     (filter (\<lambda>p. p_status p \<noteq> waiting) (players game)))
                    in (Inr (),
                        saveGameState d gameId
                          (AList.update ''playerOrder'' (JArr (map JStr order))
                             (AList.update ''tiles'' (JArr (map tile_json new_tiles))
                                (js_spread (gameState game)))))
                | _ \<Rightarrow> (Inl JsTypeError, d)))"

section \<open>Properties of database states\<close>

definition admin_count :: "db \<Rightarrow> nat \<Rightarrow> nat" where
  "admin_count d gameId =
     length (filter (\<lambda>p. game_id p = gameId \<and> p_status p = admin) (game_players d))"

definition one_admin_per_game :: "db \<Rightarrow> bool" where
  "one_admin_per_game d = list_all (\<lambda>g. admin_count d (g_id g) = 1) (games d)"

definition current_rows :: "db \<Rightarrow> string \<Rightarrow> PlayerRow list" where
  \<comment> \<open>the rows of a member, over all games, that carry the current flag\<close>
  "current_rows d email =
     filter (\<lambda>p. player_email p = email \<and> is_current p) (game_players d)"

definition membership_key :: "PlayerRow \<Rightarrow> nat \<times> string" where
  "membership_key p = (game_id p, player_email p)"

definition setCurrent_calls :: "db \<Rightarrow> string \<Rightarrow> nat list \<Rightarrow> db" where
  \<comment> \<open>the database after one \<open>setCurrentGameForUser\<close> call per listed game, in order\<close>
  "setCurrent_calls d email gameIds =
     fold (\<lambda>gameId d. snd (setCurrentGameForUser d gameId email)) gameIds d"

text \<open>
  The effect of the two \<open>UPDATE\<close> statements of \<open>setCurrentGameForUser\<close> on one
  row.
\<close>

definition set_flag :: "nat \<Rightarrow> string \<Rightarrow> PlayerRow \<Rightarrow> PlayerRow" where
  "set_flag gameId email p =
     (if player_email p = email then p\<lparr>is_current := (game_id p = gameId)\<rparr> else p)"

definition ids_allocated :: "db \<Rightarrow> bool" where
  \<comment> \<open>AUTO_INCREMENT: every id in use was handed out before the next one\<close>
  "ids_allocated d =
     (list_all (\<lambda>g. g_id g < next_game_id d) (games d)
      \<and> list_all (\<lambda>p. game_id p < next_game_id d \<and> p_id p < next_player_id d)
            (game_players d))"

text \<open>
  The constraints the schema and the service keep: primary keys are unique and come
  from the AUTO_INCREMENT counters, and a member has at most one row per game.
\<close>

definition wf_db :: "db \<Rightarrow> bool" where
  "wf_db d =
     (ids_allocated d
      \<and> distinct (map p_id (game_players d))
      \<and> distinct (map g_id (games d))
      \<and> distinct (map membership_key (game_players d)))"

definition empty_db :: db where
  "empty_db = \<lparr>games = [], game_players = [], next_game_id = 1, next_player_id = 1\<rparr>"

definition db_approve :: db where
  "db_approve =
     \<lparr>games = [\<lparr>g_id = 1, g_name = ''Friday Night'', join_code = ''123456'',
                created_by = ''a@x.com'', g_status = not_started,
                game_state = StoredObject [(''playerOrder'', JArr [JStr ''a@x.com'']),
                                           (''tiles'', JArr [])]\<rparr>],
      game_players = [\<lparr>p_id = 1, game_id = 1, player_email = ''a@x.com'',
                       p_status = admin, is_current = True\<rparr>,
                      \<lparr>p_id = 2, game_id = 1, player_email = ''b@x.com'',
                       p_status = waiting, is_current = False\<rparr>],
      next_game_id = 2, next_player_id = 3\<rparr>"

definition db_finished :: db where
  "db_finished =
     \<lparr>games = [\<lparr>g_id = 1, g_name = ''Friday Night'', join_code = ''123456'',
                created_by = ''a@x.com'', g_status = finished,
                game_state = StoredObject [(''playerOrder'', JArr [JStr ''a@x.com'']),
                                           (''tiles'', JArr [])]\<rparr>],
      game_players = [\<lparr>p_id = 1, game_id = 1, player_email = ''a@x.com'',
                       p_status = admin, is_current = True\<rparr>],
      next_game_id = 2, next_player_id = 2\<rparr>"

definition db_two_games :: db where
  "db_two_games =
     \<lparr>games = [\<lparr>g_id = 1, g_name = ''Friday Night'', join_code = ''123456'',
                created_by = ''a@x.com'', g_status = not_started,
                game_state = StoredObject [(''playerOrder'',
                                            JArr [JStr ''a@x.com'', JStr ''b@x.com'']),
                                           (''tiles'', JArr [])]\<rparr>,
               \<lparr>g_id = 2, g_name = ''Sunday'', join_code = ''654321'',
                created_by = ''b@x.com'', g_status = not_started,
                game_state = StoredObject [(''playerOrder'', JArr [JStr ''b@x.com'']),
                                           (''tiles'', JArr [])]\<rparr>],
      game_players = [\<lparr>p_id = 1, game_id = 1, player_email = ''a@x.com'',
                       p_status = admin, is_current = True\<rparr>,
                      \<lparr>p_id = 2, game_id = 2, player_email = ''b@x.com'',
                       p_status = admin, is_current = False\<rparr>,
                      \<lparr>p_id = 3, game_id = 1, player_email = ''b@x.com'',
                       p_status = confirmed, is_current = True\<rparr>],
      next_game_id = 3, next_player_id = 4\<rparr>"


section \<open>Approving a player\<close>

lemma approvePlayer_rows:
  "snd (approvePlayer d gameId targetEmail adminEmail) = d' \<Longrightarrow>
   isAdmin d gameId adminEmail \<Longrightarrow>
   game_players d' =
     map (\<lambda>p. if game_id p = gameId \<and> player_email p = targetEmail
               then p\<lparr>p_status := confirmed\<rparr> else p) (game_players d)"
  by (auto simp: approvePlayer_def Let_def)

lemma find_map_confirmed:
  "find (\<lambda>p. game_id p = g \<and> player_email p = e)
     (map (\<lambda>p. if game_id p = g \<and> player_email p = e
               then p\<lparr>p_status := confirmed\<rparr> else p) ps) =
   map_option (\<lambda>p. p\<lparr>p_status := confirmed\<rparr>)
     (find (\<lambda>p. game_id p = g \<and> player_email p = e) ps)"
  by (induction ps) auto

text \<open>
  C2. When the caller holds the admin role on the session, \<open>approvePlayer\<close> succeeds
  exactly when the target has a membership row there, whatever the role of that row
  (admin, waiting or confirmed), and afterwards the target's role is confirmed; it
  reports NotFound exactly when the target has no row, and NotAuthorized (with the
  database untouched) when the caller is not an admin of the session.
\<close>

theorem approvePlayer_spec:
  "(isAdmin d gameId adminEmail \<longrightarrow>
      (getPlayer d gameId targetEmail \<noteq> None \<longrightarrow>
         fst (approvePlayer d gameId targetEmail adminEmail) = Inr ()
         \<and> map_option p_status
             (getPlayer (snd (approvePlayer d gameId targetEmail adminEmail)) gameId targetEmail)
           = Some confirmed)
      \<and> (fst (approvePlayer d gameId targetEmail adminEmail) = Inl NotFound
           \<longleftrightarrow> getPlayer d gameId targetEmail = None))
   \<and> (\<not> isAdmin d gameId adminEmail \<longrightarrow>
        approvePlayer d gameId targetEmail adminEmail = (Inl NotAuthorized, d))"
proof -
  let ?hit = "\<lambda>p. game_id p = gameId \<and> player_email p = targetEmail"
  have none_iff: "getPlayer d gameId targetEmail = None \<longleftrightarrow> filter ?hit (game_players d) = []"
    by (auto simp: getPlayer_def find_None_iff filter_empty_conv)
  show ?thesis
  proof (cases "isAdmin d gameId adminEmail")
    case False
    then show ?thesis by (simp add: approvePlayer_def)
  next
    case True
    have res: "fst (approvePlayer d gameId targetEmail adminEmail) =
                 (if filter ?hit (game_players d) = [] then Inl NotFound else Inr ())"
      using True by (simp add: approvePlayer_def Let_def)
    have rows: "game_players (snd (approvePlayer d gameId targetEmail adminEmail)) =
                  map (\<lambda>p. if ?hit p then p\<lparr>p_status := confirmed\<rparr> else p) (game_players d)"
      using True approvePlayer_rows by blast
    have after: "getPlayer (snd (approvePlayer d gameId targetEmail adminEmail)) gameId targetEmail
                   = map_option (\<lambda>p. p\<lparr>p_status := confirmed\<rparr>) (getPlayer d gameId targetEmail)"
      unfolding getPlayer_def rows by (rule find_map_confirmed)
    show ?thesis
      using True res none_iff after
      by (cases "getPlayer d gameId targetEmail") (auto simp: option.map_comp)
  qed
qed

theorem approvePlayer_spec_witness:
  "isAdmin db_approve 1 ''a@x.com''
   \<and> getPlayer db_approve 1 ''b@x.com'' \<noteq> None
   \<and> fst (approvePlayer db_approve 1 ''b@x.com'' ''a@x.com'') = Inr ()
   \<and> map_option p_status
       (getPlayer (snd (approvePlayer db_approve 1 ''b@x.com'' ''a@x.com'')) 1 ''b@x.com'')
     = Some confirmed
   \<and> \<not> isAdmin db_approve 1 ''b@x.com''
   \<and> approvePlayer db_approve 1 ''a@x.com'' ''b@x.com'' = (Inl NotAuthorized, db_approve)"
proof -
  have a: "isAdmin db_approve 1 ''a@x.com''"
    by (simp add: isAdmin_def db_approve_def)
  have b: "getPlayer db_approve 1 ''b@x.com'' \<noteq> None"
    by (simp add: getPlayer_def db_approve_def)
  have c: "\<not> isAdmin db_approve 1 ''b@x.com''"
    by (simp add: isAdmin_def db_approve_def)
  show ?thesis
    using a b c
      approvePlayer_spec [of db_approve 1 "''a@x.com''" "''b@x.com''"]
      approvePlayer_spec [of db_approve 1 "''b@x.com''" "''a@x.com''"]
    by blast
qed

section \<open>Game status\<close>

lemma find_None_filter: "find P xs = None \<longleftrightarrow> filter P xs = []"
  by (induction xs) auto

lemma find_map_status:
  "find (\<lambda>g. g_id g = gid) (map (\<lambda>g. if g_id g = gid then g\<lparr>g_status := st\<rparr> else g) gs) =
   map_option (\<lambda>g. g\<lparr>g_status := st\<rparr>) (find (\<lambda>g. g_id g = gid) gs)"
  by (induction gs) auto

lemma find_map_status_other:
  "gid' \<noteq> gid \<Longrightarrow>
   find (\<lambda>g. g_id g = gid') (map (\<lambda>g. if g_id g = gid then g\<lparr>g_status := st\<rparr> else g) gs) =
   find (\<lambda>g. g_id g = gid') gs"
  by (induction gs) auto

text \<open>
  C8 (as the code has it). \<open>updateGameStatus\<close> checks the caller's role and nothing
  else: for an admin of an existing session it stores the requested status whatever
  the current one is, so every edge between the three phases can be taken; a caller
  who is not an admin of the session gets NotAuthorized and the database is left as it
  was. The status of every other session is untouched.
\<close>

theorem updateGameStatus_spec:
  "(isAdmin d gameId adminEmail \<longrightarrow>
      (getGame json_parse to_String d gameId \<noteq> None \<longrightarrow>
         fst (updateGameStatus d gameId adminEmail st) = Inr ()
         \<and> map_option status (getGame json_parse to_String (snd (updateGameStatus d gameId adminEmail st)) gameId)
           = Some st)
      \<and> (getGame json_parse to_String d gameId = None \<longrightarrow>
           updateGameStatus d gameId adminEmail st = (Inl NotFound, d)))
   \<and> (\<not> isAdmin d gameId adminEmail \<longrightarrow>
        updateGameStatus d gameId adminEmail st = (Inl NotAuthorized, d))
   \<and> (\<forall>other. other \<noteq> gameId \<longrightarrow>
        map_option status (getGame json_parse to_String (snd (updateGameStatus d gameId adminEmail st)) other)
        = map_option status (getGame json_parse to_String d other))"
proof -
  let ?upd = "map (\<lambda>g. if g_id g = gameId then g\<lparr>g_status := st\<rparr> else g) (games d)"
  have none_iff: "getGame json_parse to_String d gameId = None \<longleftrightarrow> filter (\<lambda>g. g_id g = gameId) (games d) = []"
    by (simp add: getGame_def find_None_filter [symmetric] split: option.splits)
  have same: "filter (\<lambda>g. g_id g = gameId) (games d) = [] \<Longrightarrow> ?upd = games d"
    by (induction "games d") (auto simp: filter_empty_conv map_idI)
  have other: "\<forall>other. other \<noteq> gameId \<longrightarrow>
        map_option status (getGame json_parse to_String (snd (updateGameStatus d gameId adminEmail st)) other)
        = map_option status (getGame json_parse to_String d other)"
    by (auto simp: updateGameStatus_def Let_def getGame_def find_map_status_other mapGameRow_def
        split: option.splits)
  show ?thesis
  proof (cases "isAdmin d gameId adminEmail")
    case False
    then show ?thesis using other by (simp add: updateGameStatus_def)
  next
    case True
    show ?thesis
    proof (cases "getGame json_parse to_String d gameId")
      case None
      then have "?upd = games d" using none_iff same by blast
      then show ?thesis
        using True None none_iff other by (simp add: updateGameStatus_def Let_def)
    next
      case (Some game)
      then have ne: "filter (\<lambda>g. g_id g = gameId) (games d) \<noteq> []"
        using none_iff by simp
      obtain row where row: "find (\<lambda>g. g_id g = gameId) (games d) = Some row"
        using Some by (auto simp: getGame_def split: option.splits)
      have "map_option status (getGame json_parse to_String (snd (updateGameStatus d gameId adminEmail st)) gameId)
              = Some st"
        using True ne row
        by (simp add: updateGameStatus_def Let_def getGame_def find_map_status mapGameRow_def)
      moreover have "fst (updateGameStatus d gameId adminEmail st) = Inr ()"
        using True ne by (simp add: updateGameStatus_def Let_def)
      ultimately show ?thesis using True Some other by simp
    qed
  qed
qed

text \<open>
  C8 (as stated) fails: the phase does not move along the three listed edges only. An
  admin moves a finished session directly to started, and a session that has not
  started directly to finished.
\<close>

theorem updateGameStatus_any_edge:
  "fst (updateGameStatus db_finished 1 ''a@x.com'' started) = Inr ()
   \<and> map_option status (getGame json_parse_example (\<lambda>v. []) db_finished 1) = Some finished
   \<and> map_option status (getGame json_parse_example (\<lambda>v. []) (snd (updateGameStatus db_finished 1 ''a@x.com'' started)) 1)
     = Some started
   \<and> fst (updateGameStatus db_approve 1 ''a@x.com'' finished) = Inr ()
   \<and> map_option status (getGame json_parse_example (\<lambda>v. []) db_approve 1) = Some not_started
   \<and> map_option status (getGame json_parse_example (\<lambda>v. []) (snd (updateGameStatus db_approve 1 ''a@x.com'' finished)) 1)
     = Some finished"
  by (simp add: updateGameStatus_def isAdmin_def getGame_def mapGameRow_def db_finished_def
      db_approve_def Let_def)

theorem updateGameStatus_spec_witness:
  "isAdmin db_finished 1 ''a@x.com'' \<and> getGame json_parse_example (\<lambda>v. []) db_finished 1 \<noteq> None
   \<and> fst (updateGameStatus db_finished 1 ''a@x.com'' not_started) = Inr ()
   \<and> map_option status (getGame json_parse_example (\<lambda>v. []) (snd (updateGameStatus db_finished 1 ''a@x.com'' not_started)) 1)
     = Some not_started
   \<and> \<not> isAdmin db_finished 1 ''b@x.com''
   \<and> updateGameStatus db_finished 1 ''b@x.com'' started = (Inl NotAuthorized, db_finished)"
proof -
  have a: "isAdmin db_finished 1 ''a@x.com''"
    by (simp add: isAdmin_def db_finished_def)
  have g: "getGame json_parse_example (\<lambda>v. []) db_finished 1 \<noteq> None"
    by (simp add: getGame_def db_finished_def)
  have b: "\<not> isAdmin db_finished 1 ''b@x.com''"
    by (simp add: isAdmin_def db_finished_def)
  show ?thesis
    using a g b
      updateGameStatus_spec [where d = db_finished and gameId = 1 and adminEmail = "''a@x.com''"
        and st = not_started and json_parse = json_parse_example and to_String = "\<lambda>v. []"]
      updateGameStatus_spec [where d = db_finished and gameId = 1 and adminEmail = "''b@x.com''"
        and st = started and json_parse = json_parse_example and to_String = "\<lambda>v. []"]
    by blast
qed

section \<open>Leaving a game and removing a player\<close>

lemma find_SomeD: "find P xs = Some x \<Longrightarrow> x \<in> set xs \<and> P x"
  by (induction xs) (auto split: if_splits)

lemma filter_id_remove1:
  "distinct (map p_id ps) \<Longrightarrow> row \<in> set ps \<Longrightarrow>
   filter (\<lambda>p. p_id p \<noteq> p_id row) ps = remove1 row ps"
proof (induction ps)
  case Nil
  then show ?case by simp
next
  case (Cons q ps)
  show ?case
  proof (cases "q = row")
    case True
    have "\<forall>p\<in>set ps. p_id p \<noteq> p_id row"
      using Cons.prems(1) True by (force simp: image_iff)
    then have "filter (\<lambda>p. p_id p \<noteq> p_id row) ps = ps"
      by (simp add: filter_id_conv)
    then show ?thesis using True by simp
  next
    case False
    then have "row \<in> set ps" using Cons.prems(2) by simp
    moreover have "p_id q \<noteq> p_id row"
      using Cons.prems(1) calculation by (force simp: image_iff)
    ultimately show ?thesis using Cons False by simp
  qed
qed

lemma current_rows_remove1:
  "game_players (d'::db) = remove1 row (game_players d) \<Longrightarrow>
   current_rows d' email = (if player_email row = email \<and> is_current row
                            then remove1 row (current_rows d email)
                            else current_rows d email)"
  by (auto simp: current_rows_def filter_remove1 remove1_idem)

text \<open>
  C10. \<open>leaveGame\<close> and \<open>removePlayer\<close> delete the row of the member in the given
  game and nothing else (player ids are the primary key of the table): the table
  afterwards is the table before without that one row, so no \<open>is_current\<close> flag of
  any other row changes and none is reassigned. If the deleted row was the member's
  only current row, the member has no current row left in any game. A call that fails
  leaves the database as it was.
\<close>

theorem leave_remove_keep_flags:
  assumes ids: "distinct (map p_id (game_players d))"
  shows "(fst (leaveGame d gameId email) = Inr () \<longrightarrow>
            (\<exists>row. getPlayer d gameId email = Some row
               \<and> game_players (snd (leaveGame d gameId email)) = remove1 row (game_players d)
               \<and> games (snd (leaveGame d gameId email)) = games d
               \<and> (current_rows d email = [row] \<longrightarrow>
                    current_rows (snd (leaveGame d gameId email)) email = [])))
         \<and> (fst (leaveGame d gameId email) \<noteq> Inr () \<longrightarrow> snd (leaveGame d gameId email) = d)
         \<and> (fst (removePlayer d gameId targetEmail adminEmail) = Inr () \<longrightarrow>
            (\<exists>row. getPlayer d gameId targetEmail = Some row
               \<and> game_players (snd (removePlayer d gameId targetEmail adminEmail))
                 = remove1 row (game_players d)
               \<and> games (snd (removePlayer d gameId targetEmail adminEmail)) = games d
               \<and> (current_rows d targetEmail = [row] \<longrightarrow>
                    current_rows (snd (removePlayer d gameId targetEmail adminEmail)) targetEmail
                    = [])))
         \<and> (fst (removePlayer d gameId targetEmail adminEmail) \<noteq> Inr () \<longrightarrow>
              snd (removePlayer d gameId targetEmail adminEmail) = d)"
    (is "(?L \<longrightarrow> (\<exists>row. ?LP row)) \<and> ?LF \<and> (?R \<longrightarrow> (\<exists>row. ?RP row)) \<and> ?RF")
proof -
  have del: "filter (\<lambda>p. p_id p \<noteq> p_id row) (game_players d) = remove1 row (game_players d)"
    if g: "getPlayer d gameId e = Some row" for row e
  proof -
    have "row \<in> set (game_players d)"
      using g find_SomeD unfolding getPlayer_def by fast
    then show ?thesis by (rule filter_id_remove1 [OF ids])
  qed
  have cur: "current_rows d' e = []"
    if a: "game_players d' = remove1 row (game_players d)" and b: "current_rows d e = [row]"
    for row e and d' :: db
  proof -
    have "row \<in> set (current_rows d e)" using b by simp
    then have "player_email row = e \<and> is_current row" by (simp add: current_rows_def)
    then show ?thesis
      using current_rows_remove1 [OF a, of e] b by simp
  qed
  have leave: "?L \<longrightarrow> (\<exists>row. ?LP row)"
  proof
    assume ok: ?L
    have "getPlayer d gameId email \<noteq> None"
      using ok by (cases "getPlayer d gameId email") (simp_all add: leaveGame_def)
    then obtain row where row: "getPlayer d gameId email = Some row" by blast
    have na: "p_status row \<noteq> admin"
      using ok row by (cases "p_status row = admin") (simp_all add: leaveGame_def)
    have gp: "game_players (snd (leaveGame d gameId email)) = remove1 row (game_players d)"
      using row na del [OF row] by (simp add: leaveGame_def)
    have gm: "games (snd (leaveGame d gameId email)) = games d"
      using row na by (simp add: leaveGame_def)
    have "?LP row"
    proof (intro conjI impI)
      show "getPlayer d gameId email = Some row" by (rule row)
      show "game_players (snd (leaveGame d gameId email)) = remove1 row (game_players d)"
        by (rule gp)
      show "games (snd (leaveGame d gameId email)) = games d" by (rule gm)
      assume "current_rows d email = [row]"
      then show "current_rows (snd (leaveGame d gameId email)) email = []"
        by (rule cur [OF gp])
    qed
    then show "\<exists>row. ?LP row" by (rule exI)
  qed
  have remove: "?R \<longrightarrow> (\<exists>row. ?RP row)"
  proof
    assume ok: ?R
    have ad: "isAdmin d gameId adminEmail"
      using ok by (cases "isAdmin d gameId adminEmail") (simp_all add: removePlayer_def)
    have "getPlayer d gameId targetEmail \<noteq> None"
      using ok ad by (cases "getPlayer d gameId targetEmail") (simp_all add: removePlayer_def)
    then obtain row where row: "getPlayer d gameId targetEmail = Some row" by blast
    have na: "p_status row \<noteq> admin"
      using ok ad row by (cases "p_status row = admin") (simp_all add: removePlayer_def)
    have gp: "game_players (snd (removePlayer d gameId targetEmail adminEmail))
                = remove1 row (game_players d)"
      using row na ad del [OF row] by (simp add: removePlayer_def)
    have gm: "games (snd (removePlayer d gameId targetEmail adminEmail)) = games d"
      using row na ad by (simp add: removePlayer_def)
    have "?RP row"
    proof (intro conjI impI)
      show "getPlayer d gameId targetEmail = Some row" by (rule row)
      show "game_players (snd (removePlayer d gameId targetEmail adminEmail))
              = remove1 row (game_players d)"
        by (rule gp)
      show "games (snd (removePlayer d gameId targetEmail adminEmail)) = games d" by (rule gm)
      assume "current_rows d targetEmail = [row]"
      then show "current_rows (snd (removePlayer d gameId targetEmail adminEmail)) targetEmail = []"
        by (rule cur [OF gp])
    qed
    then show "\<exists>row. ?RP row" by (rule exI)
  qed
  have leave_fail: ?LF
    by (cases "getPlayer d gameId email") (simp_all add: leaveGame_def)
  have remove_fail: ?RF
    by (cases "getPlayer d gameId targetEmail") (simp_all add: removePlayer_def)
  show ?thesis
    by (rule conjI [OF leave conjI [OF leave_fail conjI [OF remove remove_fail]]])
qed

theorem leave_remove_keep_flags_witness:
  "distinct (map p_id (game_players db_two_games))
   \<and> fst (leaveGame db_two_games 1 ''b@x.com'') = Inr ()
   \<and> current_rows db_two_games ''b@x.com'' = [\<lparr>p_id = 3, game_id = 1, player_email = ''b@x.com'',
                       p_status = confirmed, is_current = True\<rparr>]
   \<and> getPlayer db_two_games 1 ''b@x.com'' = Some \<lparr>p_id = 3, game_id = 1, player_email = ''b@x.com'',
                       p_status = confirmed, is_current = True\<rparr>
   \<and> current_rows (snd (leaveGame db_two_games 1 ''b@x.com'')) ''b@x.com'' = []
   \<and> fst (removePlayer db_two_games 1 ''b@x.com'' ''a@x.com'') = Inr ()
   \<and> current_rows (snd (removePlayer db_two_games 1 ''b@x.com'' ''a@x.com'')) ''b@x.com'' = []
   \<and> fst (leaveGame db_two_games 1 ''a@x.com'') \<noteq> Inr ()
   \<and> snd (leaveGame db_two_games 1 ''a@x.com'') = db_two_games"
proof -
  have ids: "distinct (map p_id (game_players db_two_games))"
    by (simp add: db_two_games_def)
  have l: "fst (leaveGame db_two_games 1 ''b@x.com'') = Inr ()"
    by (simp add: leaveGame_def getPlayer_def db_two_games_def)
  have r: "fst (removePlayer db_two_games 1 ''b@x.com'' ''a@x.com'') = Inr ()"
    by (simp add: removePlayer_def isAdmin_def getPlayer_def db_two_games_def)
  have c: "current_rows db_two_games ''b@x.com'' = [\<lparr>p_id = 3, game_id = 1, player_email = ''b@x.com'',
                       p_status = confirmed, is_current = True\<rparr>]"
    by (simp add: current_rows_def db_two_games_def)
  have g: "getPlayer db_two_games 1 ''b@x.com'' = Some \<lparr>p_id = 3, game_id = 1, player_email = ''b@x.com'',
                       p_status = confirmed, is_current = True\<rparr>"
    by (simp add: getPlayer_def db_two_games_def)
  have f: "fst (leaveGame db_two_games 1 ''a@x.com'') \<noteq> Inr ()"
    by (simp add: leaveGame_def getPlayer_def db_two_games_def)
  show ?thesis
    using ids l r c g f
      leave_remove_keep_flags [OF ids, of 1 "''b@x.com''" "''b@x.com''" "''a@x.com''"]
      leave_remove_keep_flags [OF ids, of 1 "''a@x.com''" "''b@x.com''" "''a@x.com''"]
    by auto
qed

section \<open>Current game of a user\<close>

lemma setCurrent_rows:
  "getPlayer d gameId email = Some row \<Longrightarrow>
   setCurrentGameForUser d gameId email =
     (Inr (), d\<lparr>game_players := map (set_flag gameId email) (game_players d)\<rparr>)"
  by (simp add: setCurrentGameForUser_def Let_def set_flag_def comp_def cong: if_cong)

lemma membership_key_set_flag: "membership_key (set_flag gameId email p) = membership_key p"
  by (simp add: membership_key_def set_flag_def)

lemma setCurrent_keys:
  "map membership_key (game_players (snd (setCurrentGameForUser d gameId email)))
   = map membership_key (game_players d)"
proof (cases "getPlayer d gameId email")
  case None
  then show ?thesis by (simp add: setCurrentGameForUser_def)
next
  case (Some row)
  show ?thesis
    by (simp add: setCurrent_rows [OF Some] comp_def membership_key_set_flag)
qed

lemma setCurrent_calls_keys:
  "map membership_key (game_players (setCurrent_calls d email gameIds))
   = map membership_key (game_players d)"
  unfolding setCurrent_calls_def
  by (induction gameIds arbitrary: d) (simp_all add: setCurrent_keys)

lemma find_distinct_filter:
  "distinct (map k xs) \<Longrightarrow> find (\<lambda>x. k x = v) xs = Some r \<Longrightarrow> filter (\<lambda>x. k x = v) xs = [r]"
proof (induction xs)
  case Nil
  then show ?case by simp
next
  case (Cons x xs)
  show ?case
  proof (cases "k x = v")
    case True
    then have "r = x" using Cons.prems(2) by simp
    moreover have "\<forall>y\<in>set xs. k y \<noteq> v"
      using Cons.prems(1) True by (force simp: image_iff)
    then have "filter (\<lambda>x. k x = v) xs = []"
      by (simp add: filter_empty_conv)
    ultimately show ?thesis using True by simp
  next
    case False
    then show ?thesis using Cons by simp
  qed
qed

lemma filter_current_set_flag:
  "filter (\<lambda>p. player_email p = email \<and> is_current p) (map (set_flag gameId email) ps)
   = map (\<lambda>p. p\<lparr>is_current := True\<rparr>)
       (filter (\<lambda>p. membership_key p = (gameId, email)) ps)"
  by (induction ps) (simp_all add: set_flag_def membership_key_def)

lemma filter_others_set_flag:
  "filter (\<lambda>p. player_email p \<noteq> email) (map (set_flag gameId email) ps)
   = filter (\<lambda>p. player_email p \<noteq> email) ps"
  by (induction ps) (simp_all add: set_flag_def)

text \<open>
  C6. Membership rows are unique per (game, member). After any sequence of
  \<open>setCurrentGameForUser\<close> calls of a member, a further call fails with NotFound
  (database untouched) when the member has no row in the targeted game, and otherwise
  succeeds and leaves the member with exactly one current row over all games: the
  member's row in the targeted game. The statement first clears the flag on all rows
  of the member and then sets it on the targeted row; rows of other members are not
  changed.
\<close>

theorem setCurrent_one_current:
  assumes uniq: "distinct (map membership_key (game_players d0))"
  shows "(getPlayer (setCurrent_calls d0 email gameIds) gameId email = None \<longrightarrow>
            setCurrentGameForUser (setCurrent_calls d0 email gameIds) gameId email
            = (Inl NotFound, setCurrent_calls d0 email gameIds))
         \<and> (\<forall>row. getPlayer (setCurrent_calls d0 email gameIds) gameId email = Some row \<longrightarrow>
              fst (setCurrentGameForUser (setCurrent_calls d0 email gameIds) gameId email) = Inr ()
              \<and> game_id row = gameId \<and> player_email row = email
              \<and> current_rows
                  (snd (setCurrentGameForUser (setCurrent_calls d0 email gameIds) gameId email)) email
                = [row\<lparr>is_current := True\<rparr>]
              \<and> filter (\<lambda>p. player_email p \<noteq> email)
                  (game_players
                    (snd (setCurrentGameForUser (setCurrent_calls d0 email gameIds) gameId email)))
                = filter (\<lambda>p. player_email p \<noteq> email)
                    (game_players (setCurrent_calls d0 email gameIds)))"
proof -
  let ?d = "setCurrent_calls d0 email gameIds"
  have uniq': "distinct (map membership_key (game_players ?d))"
    using uniq by (simp add: setCurrent_calls_keys)
  have none: "getPlayer ?d gameId email = None \<longrightarrow>
                setCurrentGameForUser ?d gameId email = (Inl NotFound, ?d)"
    by (simp add: setCurrentGameForUser_def)
  have some: "fst (setCurrentGameForUser ?d gameId email) = Inr ()
              \<and> game_id row = gameId \<and> player_email row = email
              \<and> current_rows (snd (setCurrentGameForUser ?d gameId email)) email
                = [row\<lparr>is_current := True\<rparr>]
              \<and> filter (\<lambda>p. player_email p \<noteq> email)
                  (game_players (snd (setCurrentGameForUser ?d gameId email)))
                = filter (\<lambda>p. player_email p \<noteq> email) (game_players ?d)"
    if row: "getPlayer ?d gameId email = Some row" for row
  proof -
    have f: "find (\<lambda>p. membership_key p = (gameId, email)) (game_players ?d) = Some row"
      using row by (simp add: getPlayer_def membership_key_def)
    have one: "filter (\<lambda>p. membership_key p = (gameId, email)) (game_players ?d) = [row]"
      using uniq' f by (rule find_distinct_filter)
    have "row \<in> set (filter (\<lambda>p. membership_key p = (gameId, email)) (game_players ?d))"
      using one by simp
    then have key: "game_id row = gameId \<and> player_email row = email"
      by (simp add: membership_key_def)
    have cur: "current_rows (snd (setCurrentGameForUser ?d gameId email)) email
                 = [row\<lparr>is_current := True\<rparr>]"
      by (simp add: setCurrent_rows [OF row] current_rows_def filter_current_set_flag one)
    have oth: "filter (\<lambda>p. player_email p \<noteq> email)
                  (game_players (snd (setCurrentGameForUser ?d gameId email)))
                = filter (\<lambda>p. player_email p \<noteq> email) (game_players ?d)"
      by (simp add: setCurrent_rows [OF row] filter_others_set_flag)
    have ok: "fst (setCurrentGameForUser ?d gameId email) = Inr ()"
      by (simp add: setCurrent_rows [OF row])
    show ?thesis using ok key cur oth by simp
  qed
  show ?thesis using none some by blast
qed

theorem setCurrent_one_current_witness:
  "distinct (map membership_key (game_players db_two_games))
   \<and> getPlayer (setCurrent_calls db_two_games ''b@x.com'' [1]) 2 ''b@x.com''
     = Some \<lparr>p_id = 2, game_id = 2, player_email = ''b@x.com'',
             p_status = admin, is_current = False\<rparr>
   \<and> fst (setCurrentGameForUser (setCurrent_calls db_two_games ''b@x.com'' [1]) 2 ''b@x.com'')
     = Inr ()
   \<and> current_rows
       (snd (setCurrentGameForUser (setCurrent_calls db_two_games ''b@x.com'' [1]) 2 ''b@x.com''))
       ''b@x.com''
     = [\<lparr>p_id = 2, game_id = 2, player_email = ''b@x.com'',
         p_status = admin, is_current = True\<rparr>]
   \<and> getPlayer (setCurrent_calls db_two_games ''a@x.com'' []) 2 ''a@x.com'' = None
   \<and> setCurrentGameForUser (setCurrent_calls db_two_games ''a@x.com'' []) 2 ''a@x.com''
     = (Inl NotFound, setCurrent_calls db_two_games ''a@x.com'' [])"
proof -
  have u: "distinct (map membership_key (game_players db_two_games))"
    by (simp add: db_two_games_def membership_key_def)
  have g: "getPlayer (setCurrent_calls db_two_games ''b@x.com'' [1]) 2 ''b@x.com''
     = Some \<lparr>p_id = 2, game_id = 2, player_email = ''b@x.com'',
             p_status = admin, is_current = False\<rparr>"
    by (simp add: setCurrent_calls_def setCurrentGameForUser_def getPlayer_def db_two_games_def
        Let_def)
  have n: "getPlayer (setCurrent_calls db_two_games ''a@x.com'' []) 2 ''a@x.com'' = None"
    by (simp add: setCurrent_calls_def getPlayer_def db_two_games_def)
  show ?thesis
    using u g n
      setCurrent_one_current [OF u, of "''b@x.com''" "[1]" 2]
      setCurrent_one_current [OF u, of "''a@x.com''" "[]" 2]
    by simp
qed


section \<open>Arithmetic of doubles\<close>

lemma round_half_even_upper: "real_of_int (round_half_even q) \<le> q + 1/2"
  unfolding round_half_even_def Let_def by (auto; linarith)

lemma round_half_even_lower: "q - 1/2 \<le> real_of_int (round_half_even q)"
  unfolding round_half_even_def Let_def by (auto; linarith)

lemma round_half_even_floor: "\<lfloor>q\<rfloor> \<le> round_half_even q"
  unfolding round_half_even_def Let_def by auto

lemma round_half_even_of_int [simp]: "round_half_even (of_int k) = k"
  unfolding round_half_even_def Let_def by simp

lemma binade_from_range: "e - int n \<le> binade_from n e x \<and> binade_from n e x \<le> e"
proof (induction n arbitrary: e)
  case 0
  then show ?case by simp
next
  case (Suc n)
  show ?case using Suc [of "e - 1"] by auto
qed

lemma binade_from_below:
  "binade_from n e x = b \<Longrightarrow> 2 powi b \<le> x \<or> b = e - int n"
proof (induction n arbitrary: e)
  case 0
  then show ?case by simp
next
  case (Suc n)
  show ?case
  proof (cases "2 powi e \<le> x")
    case True
    then show ?thesis using Suc.prems by simp
  next
    case False
    then have "binade_from n (e - 1) x = b" using Suc.prems by simp
    then have "2 powi b \<le> x \<or> b = e - 1 - int n" by (rule Suc.IH)
    then show ?thesis by auto
  qed
qed

lemma binade_from_above:
  "x < 2 powi (e + 1) \<Longrightarrow> x < 2 powi (binade_from n e x + 1)"
proof (induction n arbitrary: e)
  case 0
  then show ?case by simp
next
  case (Suc n)
  show ?case
  proof (cases "2 powi e \<le> x")
    case True
    then show ?thesis using Suc.prems by simp
  next
    case False
    then have "x < 2 powi (e - 1 + 1)" by simp
    then have "x < 2 powi (binade_from n (e - 1) x + 1)" by (rule Suc.IH)
    then show ?thesis using False by simp
  qed
qed

lemma binade_range: "- 1022 \<le> binade x \<and> binade x \<le> 1023"
  using binade_from_range [of 1023 2045 x] by (simp add: binade_def)

lemma binade_below: "2 powi (binade x) \<le> x \<or> binade x = - 1022"
  using binade_from_below [of 2045 1023 x "binade x"] by (simp add: binade_def)

lemma binade_above: "x < 2 powi 1024 \<Longrightarrow> x < 2 powi (binade x + 1)"
  using binade_from_above [of x 1023 2045] by (simp add: binade_def)

lemma powi2_less_cancel: "(2::real) powi a < 2 powi b \<Longrightarrow> a < b"
  by (rule ccontr) (simp add: not_less power_int_increasing leD)

lemma binade_le:
  assumes "x < 2 powi (E + 1)" "- 1022 \<le> E"
  shows "binade x \<le> E"
proof -
  consider "2 powi (binade x) \<le> x" | "binade x = - 1022" using binade_below by blast
  then show ?thesis
  proof cases
    case 1
    then have "(2::real) powi (binade x) < 2 powi (E + 1)" using assms(1) by simp
    then have "binade x < E + 1" by (rule powi2_less_cancel)
    then show ?thesis by simp
  next
    case 2
    then show ?thesis using assms(2) by simp
  qed
qed

lemma binade_eq:
  assumes "2 powi e \<le> x" "x < 2 powi (e + 1)" "- 1022 \<le> e" "e \<le> 1023"
  shows "binade x = e"
proof -
  have le: "binade x \<le> e" using assms(2,3) by (rule binade_le)
  have "(2::real) powi (e + 1) \<le> 2 powi 1024"
    using assms(4) by (intro power_int_increasing) simp_all
  then have "x < 2 powi 1024" using assms(2) by simp
  then have "x < 2 powi (binade x + 1)" by (rule binade_above)
  then have "(2::real) powi e < 2 powi (binade x + 1)" using assms(1) by simp
  then have "e < binade x + 1" by (rule powi2_less_cancel)
  then show ?thesis using le by simp
qed

lemma round_double_zero [simp]: "round_double 0 = 0"
  by (simp add: round_double_def)

lemma round_double_pos:
  "0 < x \<Longrightarrow>
   round_double x
   = of_int (round_half_even (x / 2 powi (binade x - 52))) * 2 powi (binade x - 52)"
  by (simp add: round_double_def)

lemma round_double_error:
  assumes "0 \<le> x"
  shows "\<bar>round_double x - x\<bar> \<le> 2 powi (binade x - 52) / 2"
proof (cases "x = 0")
  case True
  then show ?thesis by simp
next
  case False
  then have pos: "0 < x" using assms by simp
  let ?u = "(2::real) powi (binade x - 52)"
  let ?q = "x / ?u"
  have u: "0 < ?u" by simp
  have x: "x = ?q * ?u" by simp
  have up: "real_of_int (round_half_even ?q) * ?u \<le> (?q + 1/2) * ?u"
    using round_half_even_upper [of ?q] u by (intro mult_right_mono) simp_all
  have lo: "(?q - 1/2) * ?u \<le> real_of_int (round_half_even ?q) * ?u"
    using round_half_even_lower [of ?q] u by (intro mult_right_mono) simp_all
  have e: "(?q + 1/2) * ?u = x + ?u / 2" "(?q - 1/2) * ?u = x - ?u / 2"
    by (simp_all add: algebra_simps)
  have a: "real_of_int (round_half_even ?q) * ?u - x \<le> ?u / 2"
    using up e(1) by linarith
  have b: "- (real_of_int (round_half_even ?q) * ?u - x) \<le> ?u / 2"
    using lo e(2) by linarith
  show ?thesis
    unfolding round_double_pos [OF pos] using a b by (rule abs_leI)
qed

lemma round_double_nonneg:
  assumes "0 \<le> x"
  shows "0 \<le> round_double x"
proof (cases "x = 0")
  case True
  then show ?thesis by simp
next
  case False
  then have pos: "0 < x" using assms by simp
  let ?u = "(2::real) powi (binade x - 52)"
  have "0 \<le> x / ?u" using assms by simp
  then have "0 \<le> \<lfloor>x / ?u\<rfloor>" by simp
  then have "0 \<le> round_half_even (x / ?u)"
    using round_half_even_floor [of "x / ?u"] by linarith
  then show ?thesis by (simp add: round_double_pos [OF pos])
qed

lemma round_double_grid:
  assumes "0 \<le> x" "x < 2 powi 1024" "real_of_int m \<le> x" "binade x \<le> 52"
  shows "real_of_int m \<le> round_double x"
proof (cases "x = 0")
  case True
  then show ?thesis using assms(3) by simp
next
  case False
  then have pos: "0 < x" using assms by simp
  let ?b = "binade x"
  let ?u = "(2::real) powi (?b - 52)"
  have u: "0 < ?u" by simp
  have inv: "1 / ?u = 2 ^ nat (52 - ?b)"
  proof -
    have "1 / ?u = 2 powi (52 - ?b)"
      by (simp add: power_int_minus_divide [symmetric])
    also have "\<dots> = 2 ^ nat (52 - ?b)"
      using assms(4) by (simp add: power_int_nonneg_exp)
    finally show ?thesis .
  qed
  have ku: "2 ^ nat (52 - ?b) * ?u = 1"
    unfolding inv [symmetric] using u by simp
  have "real_of_int m / ?u = real_of_int m * (1 / ?u)" by simp
  also have "\<dots> = real_of_int (m * 2 ^ nat (52 - ?b))"
    unfolding inv by simp
  finally have "real_of_int m / ?u = real_of_int (m * 2 ^ nat (52 - ?b))" .
  moreover have "real_of_int m / ?u \<le> x / ?u"
    using assms(3) u by (simp add: divide_right_mono)
  ultimately have "real_of_int (m * 2 ^ nat (52 - ?b)) \<le> x / ?u" by simp
  then have "m * 2 ^ nat (52 - ?b) \<le> \<lfloor>x / ?u\<rfloor>" by (simp add: le_floor_iff)
  then have "m * 2 ^ nat (52 - ?b) \<le> round_half_even (x / ?u)"
    using round_half_even_floor [of "x / ?u"] by linarith
  then have "real_of_int (m * 2 ^ nat (52 - ?b)) \<le> real_of_int (round_half_even (x / ?u))"
    by (simp only: of_int_le_iff)
  then have le: "real_of_int (m * 2 ^ nat (52 - ?b)) * ?u
             \<le> real_of_int (round_half_even (x / ?u)) * ?u"
    using u by (intro mult_right_mono) simp_all
  have "real_of_int (m * 2 ^ nat (52 - ?b)) * ?u = real_of_int m * (2 ^ nat (52 - ?b) * ?u)"
    by simp
  also have "\<dots> = real_of_int m" unfolding ku by simp
  finally have eq: "real_of_int (m * 2 ^ nat (52 - ?b)) * ?u = real_of_int m" .
  show ?thesis
    unfolding round_double_pos [OF pos] using le unfolding eq .
qed

lemma round_double_top:
  assumes "0 \<le> x" "x < 2 powi (E + 1)" "- 1022 \<le> E" "E \<le> 1023"
  shows "round_double x \<le> 2 powi (E + 1)"
proof (cases "x = 0")
  case True
  then show ?thesis by simp
next
  case False
  then have pos: "0 < x" using assms by simp
  let ?b = "binade x"
  let ?u = "(2::real) powi (?b - 52)"
  have u: "0 < ?u" by simp
  have bE: "?b \<le> E" using assms(2,3) by (rule binade_le)
  have "(2::real) powi (E + 1) \<le> 2 powi 1024"
    using assms(4) by (intro power_int_increasing) simp_all
  then have "x < 2 powi 1024" using assms(2) by simp
  then have xb: "x < 2 powi (?b + 1)" by (rule binade_above)
  have split: "(2::real) powi (?b + 1) = 2 ^ 53 * ?u"
  proof -
    have e: "?b + 1 = 53 + (?b - 52)" by simp
    have "(2::real) powi (53 + (?b - 52)) = 2 powi 53 * ?u"
      by (subst power_int_add) simp_all
    then show ?thesis unfolding e [symmetric] by simp
  qed
  have "x / ?u < 2 ^ 53"
    using xb u by (simp add: split pos_divide_less_eq)
  then have "real_of_int (round_half_even (x / ?u)) < 9007199254740992 + 1/2"
    using round_half_even_upper [of "x / ?u"] by simp
  then have "round_half_even (x / ?u) \<le> 9007199254740992" by linarith
  then have "real_of_int (round_half_even (x / ?u)) \<le> 2 ^ 53" by simp
  then have "real_of_int (round_half_even (x / ?u)) * ?u \<le> 2 ^ 53 * ?u"
    using u by (intro mult_right_mono) simp_all
  then have "round_double x \<le> 2 powi (?b + 1)"
    by (simp add: round_double_pos [OF pos] split)
  moreover have "(2::real) powi (?b + 1) \<le> 2 powi (E + 1)"
    using bE by (intro power_int_increasing) simp_all
  ultimately show ?thesis by linarith
qed

lemma double_mul_below:
  assumes "0 \<le> r" "r \<le> 1 - 1 / 2 ^ 53" "1 \<le> n"
  shows "0 \<le> double_mul r n \<and> double_mul r n < n"
proof -
  let ?x = "r * n"
  let ?b = "binade ?x"
  have x0: "0 \<le> ?x" using assms by simp
  have "?x \<le> (1 - 1 / 2 ^ 53) * n"
    using assms by (intro mult_right_mono) simp_all
  then have xn: "?x \<le> n - n / 2 ^ 53" by (simp add: algebra_simps)
  have bn: "2 powi ?b < n"
  proof -
    consider "2 powi ?b \<le> ?x" | "?b = - 1022" using binade_below by blast
    then show ?thesis
    proof cases
      case 1
      have "0 < n / 2 ^ 53" using assms(3) by simp
      then show ?thesis using 1 xn by linarith
    next
      case 2
      have "(2::real) powi (- 1022) \<le> 2 powi 0"
        by (intro power_int_increasing) simp_all
      then have "(2::real) powi (- 1022) \<le> 1" by simp
      moreover have "(2::real) powi (- 1022) \<noteq> 1"
        by (simp add: power_int_minus field_simps)
      ultimately show ?thesis using 2 assms(3) by simp
    qed
  qed
  have half: "(2::real) powi (?b - 52) / 2 = 2 powi ?b / 2 ^ 53"
  proof -
    have "(2::real) powi (?b - 52) = 2 powi ?b / 2 powi 52"
      by (simp add: power_int_diff)
    then show ?thesis by simp
  qed
  have "\<bar>round_double ?x - ?x\<bar> \<le> 2 powi ?b / 2 ^ 53"
    using round_double_error [OF x0] by (simp only: half)
  then have "round_double ?x \<le> ?x + 2 powi ?b / 2 ^ 53" by linarith
  moreover have "2 powi ?b / 2 ^ 53 < n / 2 ^ 53"
    using bn by (simp add: divide_strict_right_mono)
  ultimately have "round_double ?x < n" using xn by linarith
  then show ?thesis
    using round_double_nonneg [OF x0] by (simp add: double_mul_def)
qed

lemma double_below_one:
  assumes d: "is_double r" and r: "0 \<le> r" "r < 1"
  shows "r \<le> 1 - 1 / 2 ^ 53"
proof (rule ccontr)
  assume "\<not> r \<le> 1 - 1 / 2 ^ 53"
  then have big: "1 - 1 / 2 ^ 53 < r" by simp
  then have half: "1 / 2 \<le> r" by simp
  have "2 powi (- 1) \<le> r" using half by (simp add: power_int_minus field_simps)
  moreover have "r < 2 powi (- 1 + 1)" using r(2) by simp
  ultimately have b: "binade r = - 1" by (rule binade_eq) simp_all
  have pos: "0 < r" using half by simp
  have u: "(2::real) powi (binade r - 52) = 1 / 2 ^ 53"
    by (simp add: b power_int_minus field_simps)
  from d have "of_int (round_half_even (r * 2 ^ 53)) * (1 / 2 ^ 53) = r"
    by (simp add: is_double_def round_double_pos [OF pos] u)
  then have eq: "real_of_int (round_half_even (r * 2 ^ 53)) = r * 2 ^ 53"
    by (simp add: field_simps)
  have "r * 2 ^ 53 < 2 ^ 53" using r(2) by simp
  moreover have "2 ^ 53 - 1 < r * 2 ^ 53" using big by (simp add: field_simps)
  ultimately have "real_of_int (round_half_even (r * 2 ^ 53)) < 9007199254740992"
    "9007199254740991 < real_of_int (round_half_even (r * 2 ^ 53))"
    unfolding eq by simp_all
  then have "round_half_even (r * 2 ^ 53) < 9007199254740992"
    "9007199254740991 < round_half_even (r * 2 ^ 53)"
    by simp_all
  then show False by presburger
qed

lemma round_double_small_error:
  assumes "0 \<le> x" "x < 2 ^ 20"
  shows "\<bar>round_double x - x\<bar> \<le> 1 / 2 ^ 34"
proof -
  have "x < 2 powi (19 + 1)" using assms(2) by simp
  then have "binade x \<le> 19" by (rule binade_le) simp
  then have "(2::real) powi (binade x - 52) \<le> 2 powi (- 33)"
    by (intro power_int_increasing) simp_all
  then have "(2::real) powi (binade x - 52) / 2 \<le> 1 / 2 ^ 34"
    by (simp add: power_int_minus field_simps)
  then show ?thesis using round_double_error [OF assms(1)] by linarith
qed

lemma round_double_int_le:
  assumes "0 \<le> x" "x < 2 ^ 20" "real_of_int m \<le> x"
  shows "real_of_int m \<le> round_double x"
proof -
  have "x < 2 powi (19 + 1)" using assms(2) by simp
  then have "binade x \<le> 19" by (rule binade_le) simp
  then have b: "binade x \<le> 52" by simp
  have "(2::real) ^ 20 \<le> 2 powi 1024" by simp
  then have "x < 2 powi 1024" using assms(2) by linarith
  with assms(1) show ?thesis using assms(3) b by (rule round_double_grid)
qed

lemma floor_round_double_bounds:
  assumes "0 \<le> x" "x < 2 ^ 20"
  shows "real_of_int \<lfloor>round_double x\<rfloor> - 1 / 2 ^ 34 \<le> x"
    and "x < real_of_int \<lfloor>round_double x\<rfloor> + 1"
proof -
  have "real_of_int \<lfloor>round_double x\<rfloor> \<le> round_double x" by simp
  then show "real_of_int \<lfloor>round_double x\<rfloor> - 1 / 2 ^ 34 \<le> x"
    using round_double_small_error [OF assms] by linarith
  show "x < real_of_int \<lfloor>round_double x\<rfloor> + 1"
  proof (rule ccontr)
    assume "\<not> x < real_of_int \<lfloor>round_double x\<rfloor> + 1"
    then have "real_of_int (\<lfloor>round_double x\<rfloor> + 1) \<le> x" by simp
    then have "real_of_int (\<lfloor>round_double x\<rfloor> + 1) \<le> round_double x"
      using assms by (intro round_double_int_le) simp_all
    then show False by linarith
  qed
qed

lemma floor_round_double_eq:
  assumes "0 \<le> x" "x < 2 ^ 20" "real_of_int j \<le> x" "x \<le> real_of_int j + 1 - 1 / 2 ^ 33"
  shows "\<lfloor>round_double x\<rfloor> = j"
proof -
  have lo: "real_of_int j \<le> round_double x"
    using assms(1,2,3) by (rule round_double_int_le)
  have "round_double x \<le> x + 1 / 2 ^ 34"
    using round_double_small_error [OF assms(1,2)] by linarith
  then have "round_double x < real_of_int j + 1" using assms(4) by simp
  then show ?thesis using lo by (simp add: floor_eq_iff)
qed

lemma is_double_dyadic:
  assumes "m < 2 ^ 53"
  shows "is_double (real m / 2 ^ 53)"
proof (cases "m = 0")
  case True
  then show ?thesis by (simp add: is_double_def)
next
  case False
  let ?r = "real m / 2 ^ 53"
  let ?b = "binade ?r"
  have pos: "0 < ?r" using False by simp
  have "?r < 1" using assms by simp
  then have "?r < 2 powi (- 1 + 1)" by simp
  then have b: "?b \<le> - 1" by (rule binade_le) simp
  have u: "1 / (2::real) powi (?b - 52) = 2 ^ 53 * 2 ^ nat (- 1 - ?b)"
  proof -
    have "1 / (2::real) powi (?b - 52) = 2 powi (52 - ?b)"
      by (simp add: power_int_minus_divide [symmetric])
    also have "52 - ?b = 53 + (- 1 - ?b)" by simp
    also have "(2::real) powi (53 + (- 1 - ?b)) = 2 powi 53 * 2 powi (- 1 - ?b)"
      by (subst power_int_add) simp_all
    also have "(2::real) powi (- 1 - ?b) = 2 ^ nat (- 1 - ?b)"
      using b by (simp add: power_int_nonneg_exp)
    finally show ?thesis by simp
  qed
  have "?r / 2 powi (?b - 52) = ?r * (1 / 2 powi (?b - 52))" by simp
  also have "\<dots> = real_of_int (int m * 2 ^ nat (- 1 - ?b))"
    unfolding u by simp
  finally have q: "?r / 2 powi (?b - 52) = real_of_int (int m * 2 ^ nat (- 1 - ?b))" .
  have "round_double ?r = real_of_int (int m * 2 ^ nat (- 1 - ?b)) * 2 powi (?b - 52)"
    unfolding round_double_pos [OF pos] q round_half_even_of_int ..
  also have "\<dots> = ?r / 2 powi (?b - 52) * 2 powi (?b - 52)"
    unfolding q ..
  also have "\<dots> = ?r" by simp
  finally show ?thesis by (simp add: is_double_def)
qed


section \<open>Join codes\<close>

lemma digit_char_mem: "m < 10 \<Longrightarrow> ''0123456789'' ! m \<in> set ''0123456789''"
  by (rule nth_mem) simp

lemma digits10_digits: "set (digits10 n) \<subseteq> set ''0123456789''"
proof (induction n rule: digits10.induct)
  case (1 n)
  show ?case
  proof (cases "n < 10")
    case True
    then show ?thesis
      using digit_char_mem [of n] by (subst digits10.simps) simp
  next
    case False
    have "n mod 10 < 10" by simp
    then have "''0123456789'' ! (n mod 10) \<in> set ''0123456789''" by (rule digit_char_mem)
    then show ?thesis
      using False 1 by (subst digits10.simps) simp
  qed
qed

lemma digits10_length_step:
  "10 \<le> n \<Longrightarrow> length (digits10 n) = Suc (length (digits10 (n div 10)))"
  by (subst digits10.simps) simp

lemma digits10_length_base: "n < 10 \<Longrightarrow> length (digits10 n) = 1"
  by (subst digits10.simps) simp

lemma digits10_length6:
  assumes "100000 \<le> n" "n < 1000000"
  shows "length (digits10 n) = 6"
proof -
  have "length (digits10 n) = Suc (length (digits10 (n div 10)))"
    using assms by (intro digits10_length_step) simp
  also have "length (digits10 (n div 10)) = Suc (length (digits10 (n div 10 div 10)))"
    using assms by (intro digits10_length_step) simp
  also have "length (digits10 (n div 10 div 10)) = Suc (length (digits10 (n div 10 div 10 div 10)))"
    using assms by (intro digits10_length_step) simp
  also have "length (digits10 (n div 10 div 10 div 10))
             = Suc (length (digits10 (n div 10 div 10 div 10 div 10)))"
    using assms by (intro digits10_length_step) simp
  also have "length (digits10 (n div 10 div 10 div 10 div 10))
             = Suc (length (digits10 (n div 10 div 10 div 10 div 10 div 10)))"
    using assms by (intro digits10_length_step) simp
  also have "length (digits10 (n div 10 div 10 div 10 div 10 div 10)) = 1"
    using assms by (intro digits10_length_base) simp
  finally show ?thesis by simp
qed

lemma digits10_nonempty: "digits10 n \<noteq> []"
  by (subst digits10.simps) simp

lemma nonzero_digit_char: "0 < m \<Longrightarrow> m < 10 \<Longrightarrow> ''0123456789'' ! m \<noteq> CHR ''0''"
proof -
  assume "0 < m" "m < 10"
  then have "m \<in> {1, 2, 3, 4, 5, 6, 7, 8, 9}" by auto
  then show ?thesis by auto
qed

lemma digits10_hd: "0 < n \<Longrightarrow> hd (digits10 n) \<noteq> CHR ''0''"
proof (induction n rule: digits10.induct)
  case (1 n)
  show ?case
  proof (cases "n < 10")
    case True
    then show ?thesis
      using nonzero_digit_char [of n] "1.prems" by (subst digits10.simps) simp
  next
    case False
    then have "0 < n div 10" by simp
    then have "hd (digits10 (n div 10)) \<noteq> CHR ''0''"
      using 1 False by simp
    then show ?thesis
      using False digits10_nonempty [of "n div 10"] by (subst digits10.simps) simp
  qed
qed

lemma digit_value_char: "m < 10 \<Longrightarrow> digit_value (''0123456789'' ! m) = m"
proof -
  assume "m < 10"
  then have "m \<in> {0, 1, 2, 3, 4, 5, 6, 7, 8, 9}" by auto
  then show ?thesis by (auto simp: digit_value_def)
qed

lemma decimal_value_snoc:
  "decimal_value (s @ [c]) = 10 * decimal_value s + digit_value c"
  by (simp add: decimal_value_def)

lemma decimal_value_digits10: "decimal_value (digits10 n) = n"
proof (induction n rule: digits10.induct)
  case (1 n)
  show ?case
  proof (cases "n < 10")
    case True
    then have "digits10 n = [''0123456789'' ! n]" by (subst digits10.simps) simp
    then show ?thesis using digit_value_char [OF True] by (simp add: decimal_value_def)
  next
    case False
    then have d: "digits10 n = digits10 (n div 10) @ [''0123456789'' ! (n mod 10)]"
      by (subst digits10.simps) simp
    have "n mod 10 < 10" by simp
    then have "digit_value (''0123456789'' ! (n mod 10)) = n mod 10" by (rule digit_value_char)
    then show ?thesis using 1 [OF False] by (simp add: d decimal_value_snoc)
  qed
qed

lemma candidate_code_digits10:
  assumes "0 \<le> r"
  shows "candidate_code r = digits10 (nat (\<lfloor>double_mul r 900000\<rfloor> + 100000))"
    and "100000 \<le> nat (\<lfloor>double_mul r 900000\<rfloor> + 100000)"
proof -
  have "0 \<le> r * 900000" using assms by simp
  then have "0 \<le> double_mul r 900000"
    unfolding double_mul_def by (rule round_double_nonneg)
  then have lo: "0 \<le> \<lfloor>double_mul r 900000\<rfloor>" by simp
  then have nn: "\<not> \<lfloor>double_mul r 900000\<rfloor> + 100000 < 0" by linarith
  show "candidate_code r = digits10 (nat (\<lfloor>double_mul r 900000\<rfloor> + 100000))"
    unfolding candidate_code_def js_String_def using nn by (rule if_not_P)
  show "100000 \<le> nat (\<lfloor>double_mul r 900000\<rfloor> + 100000)" using lo by linarith
qed

lemma candidate_code_no_leading_zero:
  assumes "0 \<le> r"
  shows "hd (candidate_code r) \<noteq> CHR ''0''"
proof -
  have "0 < nat (\<lfloor>double_mul r 900000\<rfloor> + 100000)"
    using candidate_code_digits10(2) [OF assms] by linarith
  then show ?thesis
    using digits10_hd candidate_code_digits10(1) [OF assms] by simp
qed

lemma draw_product_bounds:
  fixes r :: real
  assumes "0 \<le> r" "r < 1"
  shows "0 \<le> r * 900000" "r * 900000 < 2 ^ 20"
proof -
  show "0 \<le> r * 900000" using assms by simp
  have "r * 900000 < 900000" using assms by simp
  then show "r * 900000 < 2 ^ 20" by simp
qed

lemma candidate_code_range:
  assumes d: "is_double r" and r: "0 \<le> r" "r < 1"
  shows "\<exists>n. 100000 \<le> n \<and> n < 1000000 \<and> candidate_code r = digits10 n
             \<and> decimal_value (candidate_code r) = n
             \<and> int n = \<lfloor>double_mul r 900000\<rfloor> + 100000
             \<and> real n - 100000 - 1 / 2 ^ 34 \<le> r * 900000
             \<and> r * 900000 < real n - 100000 + 1"
proof -
  let ?j = "\<lfloor>double_mul r 900000\<rfloor>"
  let ?n = "nat (?j + 100000)"
  have le: "r \<le> 1 - 1 / 2 ^ 53" using d r by (rule double_below_one)
  have m: "0 \<le> double_mul r 900000 \<and> double_mul r 900000 < 900000"
    using double_mul_below [OF r(1) le, of 900000] by simp
  then have lo: "0 \<le> ?j" and hi: "?j < 900000" by (simp_all add: floor_less_iff)
  have c: "candidate_code r = digits10 ?n" using r(1) by (rule candidate_code_digits10)
  have n1: "100000 \<le> ?n" using lo by linarith
  have n2: "?n < 1000000" using lo hi by linarith
  have n3: "int ?n = ?j + 100000" using lo by simp
  have rn: "real ?n - 100000 = real_of_int ?j"
  proof -
    have "real ?n = real_of_int (int ?n)" by simp
    also have "\<dots> = real_of_int ?j + 100000" unfolding n3 by simp
    finally show ?thesis by simp
  qed
  note b = floor_round_double_bounds [OF draw_product_bounds [OF r]]
  have b1: "real ?n - 100000 - 1 / 2 ^ 34 \<le> r * 900000"
    unfolding rn using b(1) by (simp add: double_mul_def)
  have b2: "r * 900000 < real ?n - 100000 + 1"
    unfolding rn using b(2) by (simp add: double_mul_def)
  have dv: "decimal_value (candidate_code r) = ?n"
    unfolding c by (rule decimal_value_digits10)
  show ?thesis
    using n1 n2 c dv n3 b1 b2 by (intro exI [of _ ?n] conjI)
qed

lemma candidate_code_shape:
  assumes "is_double r" "0 \<le> r" "r < 1"
  shows "length (candidate_code r) = 6 \<and> set (candidate_code r) \<subseteq> set ''0123456789''
         \<and> hd (candidate_code r) \<noteq> CHR ''0''"
proof -
  obtain n where n: "100000 \<le> n" "n < 1000000" "candidate_code r = digits10 n"
    using candidate_code_range [OF assms] by blast
  have "0 < n" using n(1) by simp
  then show ?thesis
    using n digits10_length6 [of n] digits10_digits [of n] digits10_hd [of n] by simp
qed

lemma candidate_code_interval:
  assumes r: "0 \<le> r" "r < 1" and n: "100000 \<le> n"
    and lo: "real n - 100000 \<le> r * 900000"
    and hi: "r * 900000 \<le> real n - 100000 + 1 - 1 / 2 ^ 33"
  shows "candidate_code r = digits10 n"
proof -
  let ?j = "int n - 100000"
  have rj: "real_of_int ?j = real n - 100000" by simp
  have "\<lfloor>round_double (r * 900000)\<rfloor> = ?j"
    using draw_product_bounds [OF r] lo hi unfolding rj [symmetric]
    by (rule floor_round_double_eq)
  then have "\<lfloor>double_mul r 900000\<rfloor> + 100000 = int n" by (simp add: double_mul_def)
  then have "nat (\<lfloor>double_mul r 900000\<rfloor> + 100000) = n" by simp
  then show ?thesis using candidate_code_digits10(1) [OF r(1)] by simp
qed

lemma candidate_code_onto:
  assumes n: "100000 \<le> n" "n < 1000000"
  shows "\<exists>r. is_double r \<and> 0 \<le> r \<and> r < 1 \<and> candidate_code r = digits10 n"
proof -
  let ?j = "n - 100000"
  let ?m = "(?j * 2 ^ 53 + 899999) div 900000"
  let ?r = "real ?m / 2 ^ 53"
  have j: "?j < 900000" using n by simp
  have m_lo: "?j * 2 ^ 53 \<le> ?m * 900000"
  proof -
    have "?j * 2 ^ 53 + 899999 = ?m * 900000 + (?j * 2 ^ 53 + 899999) mod 900000" by simp
    moreover have "(?j * 2 ^ 53 + 899999) mod 900000 \<le> 899999" 
      using mod_less_divisor [of 900000 "?j * 2 ^ 53 + 899999"] by linarith
    ultimately show ?thesis by linarith
  qed
  have m_hi: "?m * 900000 \<le> ?j * 2 ^ 53 + 899999" by simp
  have "?j * 2 ^ 53 + 899999 \<le> 899999 * 2 ^ 53 + 899999" using j by simp
  then have "?m * 900000 < 900000 * 2 ^ 53" using m_hi by simp
  then have m53: "?m < 2 ^ 53" by simp
  have d: "is_double ?r" using m53 by (rule is_double_dyadic)
  have r0: "0 \<le> ?r" by simp
  have r1: "?r < 1" using m53 by simp
  have "real (?j * 2 ^ 53) \<le> real (?m * 900000)" using m_lo by (rule of_nat_mono)
  then have "real ?j * 2 ^ 53 \<le> real ?m * 900000" by simp
  then have lo': "real ?j \<le> ?r * 900000" by (simp add: field_simps)
  have "real (?m * 900000) \<le> real (?j * 2 ^ 53 + 899999)" using m_hi by (rule of_nat_mono)
  then have "real ?m * 900000 \<le> real ?j * 2 ^ 53 + 899999" by simp
  then have "?r * 900000 \<le> real ?j + 899999 / 2 ^ 53" by (simp add: field_simps)
  moreover have "(899999::real) / 2 ^ 53 \<le> 1 - 1 / 2 ^ 33" by simp
  ultimately have hi': "?r * 900000 \<le> real ?j + 1 - 1 / 2 ^ 33" by linarith
  have rj: "real ?j = real n - 100000" using n(1) by simp
  have "candidate_code ?r = digits10 n"
    using r0 r1 n(1) lo' hi' unfolding rj by (rule candidate_code_interval)
  then show ?thesis using d r0 r1 by (intro exI [of _ ?r] conjI)
qed

lemma generateJoinCode_from_Inr:
  "generateJoinCode_from d rnd a = Inr code \<Longrightarrow>
   \<exists>k. a \<le> k \<and> k < 10 \<and> code = candidate_code (rnd k) \<and> \<not> code_in_use d code
       \<and> (\<forall>i. a \<le> i \<and> i < k \<longrightarrow> code_in_use d (candidate_code (rnd i)))"
proof (induction d rnd a rule: generateJoinCode_from.induct)
  case (1 d rnd attempt)
  have lt: "attempt < 10"
    using "1.prems" by (subst (asm) generateJoinCode_from.simps) (simp split: if_splits)
  show ?case
  proof (cases "code_in_use d (candidate_code (rnd attempt))")
    case False
    then have "code = candidate_code (rnd attempt)"
      using "1.prems" lt by (subst (asm) generateJoinCode_from.simps) (simp add: Let_def)
    then show ?thesis using False lt by (intro exI [of _ attempt]) auto
  next
    case True
    then have "generateJoinCode_from d rnd (attempt + 1) = Inr code"
      using "1.prems" lt by (subst (asm) generateJoinCode_from.simps) (simp add: Let_def)
    then obtain k where k: "attempt + 1 \<le> k" "k < 10" "code = candidate_code (rnd k)"
      "\<not> code_in_use d code"
      "\<forall>i. attempt + 1 \<le> i \<and> i < k \<longrightarrow> code_in_use d (candidate_code (rnd i))"
      using "1.IH" [OF lt refl] True by blast
    have "\<forall>i. attempt \<le> i \<and> i < k \<longrightarrow> code_in_use d (candidate_code (rnd i))"
    proof (intro allI impI)
      fix i assume i: "attempt \<le> i \<and> i < k"
      show "code_in_use d (candidate_code (rnd i))"
      proof (cases "i = attempt")
        case True
        then show ?thesis using \<open>code_in_use d (candidate_code (rnd attempt))\<close> by simp
      next
        case False
        then show ?thesis using i k(5) by simp
      qed
    qed
    then show ?thesis using k by (intro exI [of _ k]) simp
  qed
qed

lemma generateJoinCode_from_Inl:
  "generateJoinCode_from d rnd a = Inl e \<longleftrightarrow>
   e = ExhaustedError \<and> (\<forall>i. a \<le> i \<and> i < 10 \<longrightarrow> code_in_use d (candidate_code (rnd i)))"
proof (induction d rnd a rule: generateJoinCode_from.induct)
  case (1 d rnd attempt)
  show ?case
  proof (cases "attempt < 10")
    case False
    then show ?thesis by (subst generateJoinCode_from.simps) auto
  next
    case lt: True
    show ?thesis
    proof (cases "code_in_use d (candidate_code (rnd attempt))")
      case False
      then have "generateJoinCode_from d rnd attempt = Inr (candidate_code (rnd attempt))"
        using lt by (subst generateJoinCode_from.simps) (simp add: Let_def)
      then show ?thesis using False lt by auto
    next
      case True
      then have eq: "generateJoinCode_from d rnd attempt = generateJoinCode_from d rnd (attempt + 1)"
        using lt by (subst generateJoinCode_from.simps) (simp add: Let_def)
      have "(\<forall>i. attempt \<le> i \<and> i < 10 \<longrightarrow> code_in_use d (candidate_code (rnd i)))
            \<longleftrightarrow> (\<forall>i. attempt + 1 \<le> i \<and> i < 10 \<longrightarrow> code_in_use d (candidate_code (rnd i)))"
        using True by (metis Suc_eq_plus1 Suc_leI le_neq_implies_less Suc_leD)
      then show ?thesis using eq "1.IH" [OF lt refl] True by simp
    qed
  qed
qed

lemma double_mul_rounds_up:
  "double_mul (123183457807755 / 4503599627370496) 900000 = 24617"
proof -
  let ?x = "123183457807755 / 4503599627370496 * 900000 :: real"
  have pos: "0 < ?x" by simp
  have "2 powi 14 \<le> ?x" by simp
  moreover have "?x < 2 powi (14 + 1)" by simp
  ultimately have b: "binade ?x = 14" by (rule binade_eq) simp_all
  have u: "(2::real) powi (14 - 52) = 1 / 274877906944"
    by (simp add: power_int_minus field_simps)
  have q: "?x / (1 / 274877906944) = 3464534750843109375 / 512" by simp
  have fl: "\<lfloor>3464534750843109375 / 512 :: real\<rfloor> = 6766669435240447" by simp
  have rh: "round_half_even (3464534750843109375 / 512) = 6766669435240448"
    unfolding round_half_even_def Let_def fl by simp
  have "round_double ?x = of_int 6766669435240448 * (1 / 274877906944)"
    unfolding round_double_pos [OF pos] b u q rh ..
  then show ?thesis by (simp add: double_mul_def)
qed

lemma candidate_code_rounds_up:
  "is_double (123183457807755 / 4503599627370496)"
  "candidate_code (123183457807755 / 4503599627370496) = ''124617''"
  "decimal_value ''124617'' = 124617"
proof -
  have "is_double (real 246366915615510 / 2 ^ 53)" by (rule is_double_dyadic) simp
  then show "is_double (123183457807755 / 4503599627370496)" by simp
  show "candidate_code (123183457807755 / 4503599627370496) = ''124617''"
    by (simp add: candidate_code_def double_mul_rounds_up js_String_def digits10.simps)
  have "decimal_value (digits10 124617) = 124617" by (rule decimal_value_digits10)
  then show "decimal_value ''124617'' = 124617" by (simp add: digits10.simps)
qed

text \<open>
  C3 (as the code has it). With every draw of \<open>Math.random()\<close> a double in \<open>[0, 1)\<close>:
  \<^item> a code returned by \<open>generateJoinCode\<close> is six ASCII digits whose first digit is
    not 0, differs from the join code of every existing game, and is the candidate of
    the first of the ten attempts that does not collide; read as a decimal number
    \<open>n\<close> it lies between 100000 and 999999 and is fixed by the draw \<open>r\<close> of that
    attempt: \<open>n - 100000\<close> is the floor of the double product \<open>r * 900000\<close>, which
    is the floor of the exact product unless that is within \<open>1 / 2 ^ 34\<close> below
    \<open>n - 100000\<close> (the draw \<open>123183457807755 / 2 ^ 52\<close> gives 124617, where the
    exact product would give 124616);
  \<^item> the operation fails, with ExhaustedError and with no other error, exactly
    when the candidates of all ten attempts collide;
  \<^item> the candidate is drawn over 100000..999999 as evenly as \<open>Math.random()\<close>
    draws over \<open>[0, 1)\<close>: every draw gives a candidate in that range, every number
    \<open>n\<close> of that range is the candidate of some draw, and the draws whose candidate
    is \<open>n\<close> are those of an interval of length \<open>1 / 900000\<close>, up to
    \<open>1 / 2 ^ 33\<close> of that length at its ends.
\<close>

theorem generateJoinCode_spec:
  assumes rng: "\<forall>k<10. is_double (rnd k) \<and> 0 \<le> rnd k \<and> rnd k < 1"
  shows "(\<forall>code. generateJoinCode d rnd = Inr code \<longrightarrow>
            length code = 6 \<and> set code \<subseteq> set ''0123456789'' \<and> hd code \<noteq> CHR ''0''
            \<and> (\<forall>g\<in>set (games d). join_code g \<noteq> code)
            \<and> (\<exists>k<10. code = candidate_code (rnd k)
                  \<and> (\<forall>i<k. code_in_use d (candidate_code (rnd i)))
                  \<and> 100000 \<le> decimal_value code \<and> decimal_value code < 1000000
                  \<and> int (decimal_value code) = \<lfloor>double_mul (rnd k) 900000\<rfloor> + 100000
                  \<and> real (decimal_value code) - 100000 - 1 / 2 ^ 34 \<le> rnd k * 900000
                  \<and> rnd k * 900000 < real (decimal_value code) - 100000 + 1))
         \<and> (generateJoinCode d rnd = Inl ExhaustedError
              \<longleftrightarrow> (\<forall>k<10. code_in_use d (candidate_code (rnd k))))
         \<and> (\<forall>e. generateJoinCode d rnd = Inl e \<longrightarrow> e = ExhaustedError)
         \<and> (\<forall>r. is_double r \<and> 0 \<le> r \<and> r < 1 \<longrightarrow>
              length (candidate_code r) = 6 \<and> set (candidate_code r) \<subseteq> set ''0123456789''
              \<and> 100000 \<le> decimal_value (candidate_code r)
              \<and> decimal_value (candidate_code r) < 1000000
              \<and> real (decimal_value (candidate_code r)) - 100000 - 1 / 2 ^ 34 \<le> r * 900000
              \<and> r * 900000 < real (decimal_value (candidate_code r)) - 100000 + 1)
         \<and> (\<forall>r n. 0 \<le> r \<and> r < 1 \<and> 100000 \<le> n \<and> real n - 100000 \<le> r * 900000
                  \<and> r * 900000 \<le> real n - 100000 + 1 - 1 / 2 ^ 33 \<longrightarrow>
              decimal_value (candidate_code r) = n)
         \<and> (\<forall>n. 100000 \<le> n \<and> n < 1000000 \<longrightarrow>
              (\<exists>r. is_double r \<and> 0 \<le> r \<and> r < 1 \<and> decimal_value (candidate_code r) = n))
         \<and> is_double (123183457807755 / 4503599627370496)
         \<and> decimal_value (candidate_code (123183457807755 / 4503599627370496)) = 124617
         \<and> \<lfloor>123183457807755 / 4503599627370496 * 900000 :: real\<rfloor> + 100000 = 124616"
proof -
  have ok: "length code = 6 \<and> set code \<subseteq> set ''0123456789'' \<and> hd code \<noteq> CHR ''0''
            \<and> (\<forall>g\<in>set (games d). join_code g \<noteq> code)
            \<and> (\<exists>k<10. code = candidate_code (rnd k)
                  \<and> (\<forall>i<k. code_in_use d (candidate_code (rnd i)))
                  \<and> 100000 \<le> decimal_value code \<and> decimal_value code < 1000000
                  \<and> int (decimal_value code) = \<lfloor>double_mul (rnd k) 900000\<rfloor> + 100000
                  \<and> real (decimal_value code) - 100000 - 1 / 2 ^ 34 \<le> rnd k * 900000
                  \<and> rnd k * 900000 < real (decimal_value code) - 100000 + 1)"
    if r: "generateJoinCode d rnd = Inr code" for code
  proof -
    obtain k where k: "k < 10" "code = candidate_code (rnd k)" "\<not> code_in_use d code"
      "\<forall>i. 0 \<le> i \<and> i < k \<longrightarrow> code_in_use d (candidate_code (rnd i))"
      using generateJoinCode_from_Inr [of d rnd 0 code] r
      unfolding generateJoinCode_def by blast
    have dk: "is_double (rnd k)" "0 \<le> rnd k" "rnd k < 1" using rng k(1) by simp_all
    have shape: "length code = 6 \<and> set code \<subseteq> set ''0123456789'' \<and> hd code \<noteq> CHR ''0''"
      using candidate_code_shape [OF dk] k(2) by simp
    have free: "\<forall>g\<in>set (games d). join_code g \<noteq> code"
      using k(3) by (simp add: code_in_use_def filter_empty_conv)
    obtain n where n: "100000 \<le> n" "n < 1000000"
      "decimal_value (candidate_code (rnd k)) = n"
      "int n = \<lfloor>double_mul (rnd k) 900000\<rfloor> + 100000"
      "real n - 100000 - 1 / 2 ^ 34 \<le> rnd k * 900000"
      "rnd k * 900000 < real n - 100000 + 1"
      using candidate_code_range [OF dk] by blast
    have dv: "decimal_value code = n" using n(3) k(2) by simp
    have "code = candidate_code (rnd k)
                  \<and> (\<forall>i<k. code_in_use d (candidate_code (rnd i)))
                  \<and> 100000 \<le> decimal_value code \<and> decimal_value code < 1000000
                  \<and> int (decimal_value code) = \<lfloor>double_mul (rnd k) 900000\<rfloor> + 100000
                  \<and> real (decimal_value code) - 100000 - 1 / 2 ^ 34 \<le> rnd k * 900000
                  \<and> rnd k * 900000 < real (decimal_value code) - 100000 + 1"
      unfolding dv using k(2) k(4) n(1,2,4,5,6) by simp
    then have "\<exists>k<10. code = candidate_code (rnd k)
                  \<and> (\<forall>i<k. code_in_use d (candidate_code (rnd i)))
                  \<and> 100000 \<le> decimal_value code \<and> decimal_value code < 1000000
                  \<and> int (decimal_value code) = \<lfloor>double_mul (rnd k) 900000\<rfloor> + 100000
                  \<and> real (decimal_value code) - 100000 - 1 / 2 ^ 34 \<le> rnd k * 900000
                  \<and> rnd k * 900000 < real (decimal_value code) - 100000 + 1"
      using k(1) by blast
    then show ?thesis using shape free by simp
  qed
  have ex: "generateJoinCode d rnd = Inl ExhaustedError
              \<longleftrightarrow> (\<forall>k<10. code_in_use d (candidate_code (rnd k)))"
    unfolding generateJoinCode_def by (simp add: generateJoinCode_from_Inl)
  have err: "\<forall>e. generateJoinCode d rnd = Inl e \<longrightarrow> e = ExhaustedError"
    unfolding generateJoinCode_def by (simp add: generateJoinCode_from_Inl)
  have draw: "length (candidate_code r) = 6 \<and> set (candidate_code r) \<subseteq> set ''0123456789''
              \<and> 100000 \<le> decimal_value (candidate_code r)
              \<and> decimal_value (candidate_code r) < 1000000
              \<and> real (decimal_value (candidate_code r)) - 100000 - 1 / 2 ^ 34 \<le> r * 900000
              \<and> r * 900000 < real (decimal_value (candidate_code r)) - 100000 + 1"
    if "is_double r \<and> 0 \<le> r \<and> r < 1" for r
  proof -
    have dr: "is_double r" "0 \<le> r" "r < 1" using that by simp_all
    obtain n where n: "100000 \<le> n" "n < 1000000"
      "decimal_value (candidate_code r) = n"
      "real n - 100000 - 1 / 2 ^ 34 \<le> r * 900000"
      "r * 900000 < real n - 100000 + 1"
      using candidate_code_range [OF dr] by blast
    show ?thesis
      unfolding n(3) using candidate_code_shape [OF dr] n(1,2,4,5) by simp
  qed
  have inside: "decimal_value (candidate_code r) = n"
    if "0 \<le> r \<and> r < 1 \<and> 100000 \<le> n \<and> real n - 100000 \<le> r * 900000
        \<and> r * 900000 \<le> real n - 100000 + 1 - 1 / 2 ^ 33" for r n
  proof -
    have "candidate_code r = digits10 n"
      using that by (intro candidate_code_interval) simp_all
    then show ?thesis by (simp add: decimal_value_digits10)
  qed
  have onto: "\<exists>r. is_double r \<and> 0 \<le> r \<and> r < 1 \<and> decimal_value (candidate_code r) = n"
    if h: "100000 \<le> n \<and> n < 1000000" for n
  proof -
    obtain r where "is_double r" "0 \<le> r" "r < 1" "candidate_code r = digits10 n"
      using candidate_code_onto [of n] h by blast
    then show ?thesis by (intro exI [of _ r]) (simp add: decimal_value_digits10)
  qed
  show ?thesis
  proof (intro conjI allI impI)
    fix code assume "generateJoinCode d rnd = Inr code"
    from ok [OF this] show "length code = 6" "set code \<subseteq> set ''0123456789''"
      "hd code \<noteq> CHR ''0''" "\<forall>g\<in>set (games d). join_code g \<noteq> code"
      "\<exists>k<10. code = candidate_code (rnd k)
                  \<and> (\<forall>i<k. code_in_use d (candidate_code (rnd i)))
                  \<and> 100000 \<le> decimal_value code \<and> decimal_value code < 1000000
                  \<and> int (decimal_value code) = \<lfloor>double_mul (rnd k) 900000\<rfloor> + 100000
                  \<and> real (decimal_value code) - 100000 - 1 / 2 ^ 34 \<le> rnd k * 900000
                  \<and> rnd k * 900000 < real (decimal_value code) - 100000 + 1"
      by simp_all
  next
    show "generateJoinCode d rnd = Inl ExhaustedError
              \<longleftrightarrow> (\<forall>k<10. code_in_use d (candidate_code (rnd k)))" by (rule ex)
  next
    fix e assume "generateJoinCode d rnd = Inl e"
    then show "e = ExhaustedError" using err by simp
  next
    fix r :: real assume a: "is_double r \<and> 0 \<le> r \<and> r < 1"
    from draw [OF a] show "length (candidate_code r) = 6"
      "set (candidate_code r) \<subseteq> set ''0123456789''"
      "100000 \<le> decimal_value (candidate_code r)"
      "decimal_value (candidate_code r) < 1000000"
      "real (decimal_value (candidate_code r)) - 100000 - 1 / 2 ^ 34 \<le> r * 900000"
      "r * 900000 < real (decimal_value (candidate_code r)) - 100000 + 1"
      by simp_all
  next
    fix r :: real and n :: nat
    assume "0 \<le> r \<and> r < 1 \<and> 100000 \<le> n \<and> real n - 100000 \<le> r * 900000
        \<and> r * 900000 \<le> real n - 100000 + 1 - 1 / 2 ^ 33"
    then show "decimal_value (candidate_code r) = n" by (rule inside)
  next
    fix n :: nat assume "100000 \<le> n \<and> n < 1000000"
    then show "\<exists>r. is_double r \<and> 0 \<le> r \<and> r < 1 \<and> decimal_value (candidate_code r) = n"
      by (rule onto)
  next
    show "is_double (123183457807755 / 4503599627370496)"
      by (rule candidate_code_rounds_up)
    show "decimal_value (candidate_code (123183457807755 / 4503599627370496)) = 124617"
      by (simp only: candidate_code_rounds_up)
    show "\<lfloor>123183457807755 / 4503599627370496 * 900000 :: real\<rfloor> + 100000 = 124616"
      by simp
  qed
qed

text \<open>
  C3 (as stated) fails: candidates are not drawn from the whole space of six-digit
  strings. No draw in \<open>[0, 1)\<close> yields a code with a leading zero, such as 012345.
\<close>

theorem join_code_never_leading_zero:
  "\<not> (\<exists>r::real. 0 \<le> r \<and> r < 1 \<and> candidate_code r = ''012345'')"
proof
  assume "\<exists>r::real. 0 \<le> r \<and> r < 1 \<and> candidate_code r = ''012345''"
  then obtain r :: real where r: "0 \<le> r" "r < 1" "candidate_code r = ''012345''" by blast
  have "hd (candidate_code r) \<noteq> CHR ''0''"
    using r(1) by (rule candidate_code_no_leading_zero)
  then show False using r(3) by simp
qed


theorem generateJoinCode_spec_witness:
  "is_double (27329 / 1048576) \<and> (0::real) \<le> 27329 / 1048576 \<and> (27329 / 1048576 :: real) < 1
   \<and> is_double (1 / 2) \<and> (0::real) \<le> 1 / 2 \<and> (1 / 2 :: real) < 1
   \<and> code_in_use db_approve (candidate_code (27329 / 1048576))
   \<and> generateJoinCode db_approve (\<lambda>k. if k = 0 then 27329 / 1048576 else 1 / 2) = Inr ''550000''
   \<and> length ''550000'' = 6 \<and> hd ''550000'' \<noteq> CHR ''0''
   \<and> join_code (hd (games db_approve)) \<noteq> ''550000''
   \<and> decimal_value ''550000'' = 550000
   \<and> decimal_value (candidate_code (27329 / 1048576)) = 123456
   \<and> generateJoinCode db_approve (\<lambda>k. 27329 / 1048576) = Inl ExhaustedError"
proof -
  let ?a = "27329 / 1048576 :: real"
  let ?rnd = "\<lambda>k::nat. if k = 0 then ?a else (1 / 2 :: real)"
  have "is_double (real 234754322464768 / 2 ^ 53)" by (rule is_double_dyadic) simp
  then have da: "is_double ?a" by simp
  have "is_double (real 4503599627370496 / 2 ^ 53)" by (rule is_double_dyadic) simp
  then have dh: "is_double (1 / 2)" by simp
  have h: "\<forall>k<10. is_double (?rnd k) \<and> 0 \<le> ?rnd k \<and> ?rnd k < 1"
    using da dh by simp
  have h': "\<forall>k<10::nat. is_double ((\<lambda>k. ?a) k) \<and> 0 \<le> (\<lambda>k. ?a) k \<and> (\<lambda>k. ?a) k < 1"
    using da by simp
  note t = generateJoinCode_spec [OF h, of db_approve]
  note returned = t [THEN conjunct1, rule_format]
  note inside = t [THEN conjunct2, THEN conjunct2, THEN conjunct2, THEN conjunct2,
      THEN conjunct1, rule_format]
  have v0: "decimal_value (candidate_code ?a) = 123456"
    by (rule inside) simp
  have v1: "decimal_value (candidate_code (1 / 2)) = 550000"
    by (rule inside) simp
  have s0: "candidate_code ?a = digits10 123456"
    by (rule candidate_code_interval) simp_all
  have s1: "candidate_code (1 / 2) = digits10 550000"
    by (rule candidate_code_interval) simp_all
  have c0: "candidate_code ?a = ''123456''" unfolding s0 by (simp add: digits10.simps)
  have c1: "candidate_code (1 / 2) = ''550000''" unfolding s1 by (simp add: digits10.simps)
  have u0: "code_in_use db_approve ''123456''"
    by (simp add: code_in_use_def db_approve_def)
  have u1: "\<not> code_in_use db_approve ''550000''"
    by (simp add: code_in_use_def db_approve_def)
  have r: "generateJoinCode db_approve ?rnd = Inr ''550000''"
    unfolding generateJoinCode_def
    by (simp add: generateJoinCode_from.simps [of _ _ 0] generateJoinCode_from.simps [of _ _ 1]
        generateJoinCode_from.simps [of _ _ "Suc 0"] c0 c1 u0 u1 Let_def)
  have g: "hd (games db_approve) \<in> set (games db_approve)"
    by (simp add: db_approve_def)
  have shape: "length ''550000'' = 6 \<and> hd ''550000'' \<noteq> CHR ''0''
               \<and> join_code (hd (games db_approve)) \<noteq> ''550000''"
    using returned [OF r] g by blast
  have ex: "generateJoinCode db_approve (\<lambda>k. ?a) = Inl ExhaustedError"
    using generateJoinCode_spec [OF h', of db_approve, THEN conjunct2, THEN conjunct1] c0 u0
    by simp
  have w1: "decimal_value ''550000'' = 550000" using v1 unfolding c1 .
  show ?thesis
    using da dh r shape ex c0 u0 v0 w1 by simp
qed


section \<open>Creating a game\<close>

lemma find_fresh_append:
  "\<forall>x\<in>set xs. \<not> P x \<Longrightarrow> P y \<Longrightarrow> find P (xs @ [y]) = Some y"
  by (induction xs) simp_all

lemma filter_fresh_append:
  "\<forall>x\<in>set xs. \<not> P x \<Longrightarrow> P y \<Longrightarrow> filter P (xs @ [y]) = [y]"
  by (induction xs) simp_all

lemma createGame_unfold:
  assumes code: "generateJoinCode d rnd = Inr code"
    and g: "\<forall>g\<in>set (games d). g_id g \<noteq> next_game_id d"
    and p: "\<forall>p\<in>set (game_players d). game_id p \<noteq> next_game_id d"
  shows "createGame json_parse to_String d rnd name creatorEmail =
     (Inr \<lparr>gw_id = next_game_id d, gw_name = name, joinCode = code,
           createdBy = creatorEmail, status = not_started,
           gameState = JObj [(''playerOrder'', JArr [JStr creatorEmail]), (''tiles'', JArr [])],
           players = [\<lparr>p_id = next_player_id d, game_id = next_game_id d,
                       player_email = creatorEmail, p_status = admin,
                       is_current = (current_rows d creatorEmail = [])\<rparr>]\<rparr>,
      d\<lparr>games := games d @
            [\<lparr>g_id = next_game_id d, g_name = name, join_code = code,
              created_by = creatorEmail, g_status = not_started,
              game_state = StoredObject [(''playerOrder'', JArr [JStr creatorEmail]),
                                         (''tiles'', JArr [])]\<rparr>],
        next_game_id := Suc (next_game_id d),
        game_players := game_players d @
            [\<lparr>p_id = next_player_id d, game_id = next_game_id d,
              player_email = creatorEmail, p_status = admin,
              is_current = (current_rows d creatorEmail = [])\<rparr>],
        next_player_id := Suc (next_player_id d)\<rparr>)"
proof -
  let ?row = "\<lparr>g_id = next_game_id d, g_name = name, join_code = code,
              created_by = creatorEmail, g_status = not_started,
              game_state = StoredObject [(''playerOrder'', JArr [JStr creatorEmail]),
                                         (''tiles'', JArr [])]\<rparr>"
  let ?pl = "\<lparr>p_id = next_player_id d, game_id = next_game_id d,
              player_email = creatorEmail, p_status = admin,
              is_current = (current_rows d creatorEmail = [])\<rparr>"
  have f: "find (\<lambda>g. g_id g = next_game_id d) (games d @ [?row]) = Some ?row"
    using g by (intro find_fresh_append) simp_all
  have fp: "filter (\<lambda>p. game_id p = next_game_id d) (game_players d @ [?pl]) = [?pl]"
    using p by (intro filter_fresh_append) simp_all
  show ?thesis
    using f fp
    by (simp add: createGame_def code Let_def getGame_def fetchPlayers_def mapGameRow_def parseGameState_def
        current_rows_def)
qed

text \<open>
  C7. \<open>createGame\<close> fails only when no join code can be allocated, and then
  changes nothing. Otherwise it returns, and stores, a game with the given name and
  creator whose status is not_started, whose player order is the one-element list of
  the creator, whose tile list is empty, whose join code is the freshly generated one
  (used by no game that existed before), and which has exactly one membership row:
  role admin, member the creator, and current exactly when the creator had no current
  row in any game before the call.
\<close>

theorem createGame_spec:
  assumes alloc: "ids_allocated d"
  shows "(\<forall>e. generateJoinCode d rnd = Inl e \<longrightarrow>
            createGame json_parse to_String d rnd name creatorEmail = (Inl e, d))
         \<and> (\<forall>code. generateJoinCode d rnd = Inr code \<longrightarrow>
              (\<exists>game. fst (createGame json_parse to_String d rnd name creatorEmail) = Inr game
                 \<and> getGame json_parse to_String (snd (createGame json_parse to_String d rnd name creatorEmail)) (gw_id game) = Some game
                 \<and> gw_name game = name \<and> createdBy game = creatorEmail
                 \<and> status game = not_started
                 \<and> gameState game = JObj [(''playerOrder'', JArr [JStr creatorEmail]), (''tiles'', JArr [])]
                 \<and> joinCode game = code
                 \<and> (\<forall>g\<in>set (games d). join_code g \<noteq> code \<and> g_id g \<noteq> gw_id game)
                 \<and> (\<exists>row. players game = [row] \<and> p_status row = admin
                        \<and> player_email row = creatorEmail \<and> game_id row = gw_id game
                        \<and> (is_current row \<longleftrightarrow> current_rows d creatorEmail = []))))"
proof -
  have g: "\<forall>g\<in>set (games d). g_id g \<noteq> next_game_id d"
    using alloc by (auto simp: ids_allocated_def list_all_iff)
  have p: "\<forall>p\<in>set (game_players d). game_id p \<noteq> next_game_id d"
    using alloc by (auto simp: ids_allocated_def list_all_iff)
  have fail: "\<forall>e. generateJoinCode d rnd = Inl e \<longrightarrow>
            createGame json_parse to_String d rnd name creatorEmail = (Inl e, d)"
    by (simp add: createGame_def)
  have ok: "\<exists>game. fst (createGame json_parse to_String d rnd name creatorEmail) = Inr game
                 \<and> getGame json_parse to_String (snd (createGame json_parse to_String d rnd name creatorEmail)) (gw_id game) = Some game
                 \<and> gw_name game = name \<and> createdBy game = creatorEmail
                 \<and> status game = not_started
                 \<and> gameState game = JObj [(''playerOrder'', JArr [JStr creatorEmail]), (''tiles'', JArr [])]
                 \<and> joinCode game = code
                 \<and> (\<forall>g\<in>set (games d). join_code g \<noteq> code \<and> g_id g \<noteq> gw_id game)
                 \<and> (\<exists>row. players game = [row] \<and> p_status row = admin
                        \<and> player_email row = creatorEmail \<and> game_id row = gw_id game
                        \<and> (is_current row \<longleftrightarrow> current_rows d creatorEmail = []))"
    if code: "generateJoinCode d rnd = Inr code" for code
  proof -
    let ?pl = "\<lparr>p_id = next_player_id d, game_id = next_game_id d,
                player_email = creatorEmail, p_status = admin,
                is_current = (current_rows d creatorEmail = [])\<rparr>"
    let ?row = "\<lparr>g_id = next_game_id d, g_name = name, join_code = code,
              created_by = creatorEmail, g_status = not_started,
              game_state = StoredObject [(''playerOrder'', JArr [JStr creatorEmail]),
                                         (''tiles'', JArr [])]\<rparr>"
    let ?game = "\<lparr>gw_id = next_game_id d, gw_name = name, joinCode = code,
           createdBy = creatorEmail, status = not_started,
           gameState = JObj [(''playerOrder'', JArr [JStr creatorEmail]), (''tiles'', JArr [])],
           players = [?pl]\<rparr>"
    note unf = createGame_unfold [OF code g p, of json_parse to_String name creatorEmail]
    have r: "fst (createGame json_parse to_String d rnd name creatorEmail) = Inr ?game"
      by (simp add: unf)
    have f: "find (\<lambda>g. g_id g = next_game_id d) (games d @ [?row]) = Some ?row"
      using g by (intro find_fresh_append) simp_all
    have fp: "filter (\<lambda>p. game_id p = next_game_id d) (game_players d @ [?pl]) = [?pl]"
      using p by (intro filter_fresh_append) simp_all
    have s: "getGame json_parse to_String (snd (createGame json_parse to_String d rnd name creatorEmail)) (next_game_id d) = Some ?game"
      using f fp by (simp add: unf getGame_def fetchPlayers_def mapGameRow_def parseGameState_def)
    have "\<not> code_in_use d code"
      using generateJoinCode_from_Inr [of d rnd 0 code] code
      unfolding generateJoinCode_def by blast
    then have free: "\<forall>g\<in>set (games d). join_code g \<noteq> code"
      by (simp add: code_in_use_def filter_empty_conv)
    have pl: "\<exists>row. players ?game = [row] \<and> p_status row = admin
                        \<and> player_email row = creatorEmail \<and> game_id row = gw_id ?game
                        \<and> (is_current row \<longleftrightarrow> current_rows d creatorEmail = [])"
      by (intro exI [of _ ?pl]) simp
    have "fst (createGame json_parse to_String d rnd name creatorEmail) = Inr ?game
                 \<and> getGame json_parse to_String (snd (createGame json_parse to_String d rnd name creatorEmail)) (gw_id ?game) = Some ?game
                 \<and> gw_name ?game = name \<and> createdBy ?game = creatorEmail
                 \<and> status ?game = not_started
                 \<and> gameState ?game = JObj [(''playerOrder'', JArr [JStr creatorEmail]), (''tiles'', JArr [])]
                 \<and> joinCode ?game = code
                 \<and> (\<forall>g\<in>set (games d). join_code g \<noteq> code \<and> g_id g \<noteq> gw_id ?game)
                 \<and> (\<exists>row. players ?game = [row] \<and> p_status row = admin
                        \<and> player_email row = creatorEmail \<and> game_id row = gw_id ?game
                        \<and> (is_current row \<longleftrightarrow> current_rows d creatorEmail = []))"
      using r s free g pl by (simp del: ex_simps)
    then show ?thesis by (rule exI [of _ ?game])
  qed
  show ?thesis using fail ok by blast
qed

theorem createGame_spec_witness:
  "ids_allocated db_approve
   \<and> generateJoinCode db_approve (\<lambda>k. 1/2) = Inr ''550000''
   \<and> (\<exists>game. fst (createGame json_parse_example (\<lambda>v. []) db_approve (\<lambda>k. 1/2) ''Sunday'' ''b@x.com'') = Inr game
         \<and> status game = not_started
         \<and> gameState game = JObj [(''playerOrder'', JArr [JStr ''b@x.com'']), (''tiles'', JArr [])]
         \<and> joinCode game = ''550000''
         \<and> (\<exists>row. players game = [row] \<and> p_status row = admin
               \<and> player_email row = ''b@x.com'' \<and> is_current row))"
proof -
  have a: "ids_allocated db_approve"
    by (simp add: ids_allocated_def db_approve_def)
  have "candidate_code (1/2) = digits10 550000"
    by (rule candidate_code_interval) simp_all
  then have c1: "candidate_code (1/2) = ''550000''" by (simp add: digits10.simps)
  have u1: "\<not> code_in_use db_approve ''550000''"
    by (simp add: code_in_use_def db_approve_def)
  have r: "generateJoinCode db_approve (\<lambda>k. 1/2) = Inr ''550000''"
    unfolding generateJoinCode_def
    by (simp add: generateJoinCode_from.simps [of _ _ 0] c1 u1 Let_def)
  have c: "current_rows db_approve ''b@x.com'' = []"
    by (simp add: current_rows_def db_approve_def)
  show ?thesis
    using a r c createGame_spec [OF a, of "\<lambda>k. 1/2" json_parse_example "\<lambda>v. []" "''Sunday''" "''b@x.com''"]
    by auto
qed


section \<open>Player order\<close>

lemma fold_push_set:
  "set (fold (\<lambda>email cleaned. if email \<notin> set cleaned then cleaned @ [email] else cleaned) es acc)
   = set acc \<union> set es"
  by (induction es arbitrary: acc) auto

lemma fold_push_distinct:
  "distinct es \<Longrightarrow>
   fold (\<lambda>email cleaned. if email \<notin> set cleaned then cleaned @ [email] else cleaned) es acc
   = acc @ filter (\<lambda>e. e \<notin> set acc) es"
proof (induction es arbitrary: acc)
  case Nil
  then show ?case by simp
next
  case (Cons e es)
  have d: "distinct es" and ne: "e \<notin> set es" using Cons.prems by simp_all
  show ?case
  proof (cases "e \<in> set acc")
    case True
    then show ?thesis using Cons.IH [OF d, of acc] by simp
  next
    case False
    have "filter (\<lambda>x. x \<notin> set (acc @ [e])) es = filter (\<lambda>x. x \<notin> set acc) es"
      using ne by (intro filter_cong) auto
    then show ?thesis using False Cons.IH [OF d, of "acc @ [e]"] by simp
  qed
qed

lemma normalizePlayerOrder_set:
  "set (normalizePlayerOrder order es) = set es"
  by (auto simp: normalizePlayerOrder_def Let_def fold_push_set)

lemma normalizePlayerOrder_distinct_eligible:
  assumes "distinct es"
  shows "normalizePlayerOrder order es
         = filter (\<lambda>e. e \<in> set es) order @ filter (\<lambda>e. e \<notin> set order) es"
proof -
  have "filter (\<lambda>e. e \<notin> set (filter (\<lambda>e. e \<in> set es) order)) es
        = filter (\<lambda>e. e \<notin> set order) es"
    by (intro filter_cong) auto
  then show ?thesis
    using assms by (simp add: normalizePlayerOrder_def Let_def fold_push_distinct)
qed

lemma normalizePlayerOrder_perm_iff:
  assumes "distinct es"
  shows "mset (normalizePlayerOrder order es) = mset es
         \<longleftrightarrow> length (normalizePlayerOrder order es) = length es"
proof
  assume "mset (normalizePlayerOrder order es) = mset es"
  then show "length (normalizePlayerOrder order es) = length es"
    by (rule mset_eq_length)
next
  assume len: "length (normalizePlayerOrder order es) = length es"
  have "card (set (normalizePlayerOrder order es)) = length (normalizePlayerOrder order es)"
    using assms len distinct_card [of es] by (simp add: normalizePlayerOrder_set)
  then have "distinct (normalizePlayerOrder order es)"
    by (rule card_distinct)
  then show "mset (normalizePlayerOrder order es) = mset es"
    using assms normalizePlayerOrder_set [of order es]
    by (simp add: set_eq_iff_mset_eq_distinct)
qed

lemma mset_by_status:
  "mset (filter (\<lambda>p. p_status p = admin) rows
         @ filter (\<lambda>p. p_status p = confirmed) rows
         @ filter (\<lambda>p. p_status p = waiting) rows) = mset rows"
proof (induction rows)
  case Nil
  then show ?case by simp
next
  case (Cons p rows)
  then show ?case by (cases "p_status p") simp_all
qed

lemma distinct_emails_of_game:
  assumes "distinct (map membership_key ps)"
  shows "distinct (map player_email (filter (\<lambda>p. game_id p = gameId) ps))"
proof -
  have "distinct (map membership_key (filter (\<lambda>p. game_id p = gameId) ps))"
    using assms by (rule distinct_map_filter)
  moreover have "map membership_key (filter (\<lambda>p. game_id p = gameId) ps)
                 = map (\<lambda>p. (gameId, player_email p)) (filter (\<lambda>p. game_id p = gameId) ps)"
    by (simp add: membership_key_def)
  ultimately have "distinct (map (Pair gameId) (map player_email (filter (\<lambda>p. game_id p = gameId) ps)))"
    by (simp add: comp_def)
  then show ?thesis by (auto simp: distinct_map inj_on_def)
qed

lemma distinct_fetchPlayers_emails:
  assumes "distinct (map membership_key (game_players d))"
  shows "distinct (map player_email (fetchPlayers d gameId))"
proof -
  let ?rows = "filter (\<lambda>p. game_id p = gameId) (game_players d)"
  have "mset (fetchPlayers d gameId) = mset ?rows"
    by (simp only: fetchPlayers_def Let_def mset_by_status)
  then have "mset (map player_email (fetchPlayers d gameId)) = mset (map player_email ?rows)"
    by simp
  then show ?thesis
    using distinct_emails_of_game [OF assms, of gameId] mset_eq_imp_distinct_iff by blast
qed

lemma parseGameState_object: "parseGameState json_parse to_String (StoredObject kvs) = JObj kvs"
  by (simp add: parseGameState_def)

lemma getGame_find:
  "getGame json_parse to_String d gameId
   = map_option (\<lambda>row. mapGameRow json_parse to_String row (fetchPlayers d gameId))
       (find (\<lambda>g. g_id g = gameId) (games d))"
  by (simp add: getGame_def split: option.splits)

lemma filter_eligible_admin:
  "filter (\<lambda>p. p_status p = admin \<or> p_status p = confirmed) (filter (\<lambda>p. p_status p = admin) ps)
   = filter (\<lambda>p. p_status p = admin) ps"
  by (induction ps) simp_all

lemma filter_eligible_confirmed:
  "filter (\<lambda>p. p_status p = admin \<or> p_status p = confirmed)
     (filter (\<lambda>p. p_status p = confirmed) ps)
   = filter (\<lambda>p. p_status p = confirmed) ps"
  by (induction ps) simp_all

lemma filter_eligible_waiting:
  "filter (\<lambda>p. p_status p = admin \<or> p_status p = confirmed)
     (filter (\<lambda>p. p_status p = waiting) ps) = []"
  by (induction ps) simp_all

lemma eligible_emails_rows:
  "eligible_emails (mapGameRow json_parse to_String row (fetchPlayers d gameId))
   = map player_email
       (filter (\<lambda>p. game_id p = gameId \<and> p_status p = admin) (game_players d)
        @ filter (\<lambda>p. game_id p = gameId \<and> p_status p = confirmed) (game_players d))"
proof -
  let ?rows = "filter (\<lambda>p. game_id p = gameId) (game_players d)"
  have "filter (\<lambda>p. p_status p = admin \<or> p_status p = confirmed) (fetchPlayers d gameId)
        = filter (\<lambda>p. p_status p = admin) ?rows @ filter (\<lambda>p. p_status p = confirmed) ?rows"
    by (simp only: fetchPlayers_def Let_def filter_append filter_eligible_admin
        filter_eligible_confirmed filter_eligible_waiting append_Nil2)
  also have "filter (\<lambda>p. p_status p = admin) ?rows
             = filter (\<lambda>p. game_id p = gameId \<and> p_status p = admin) (game_players d)"
    by simp
  also have "filter (\<lambda>p. p_status p = confirmed) ?rows
             = filter (\<lambda>p. game_id p = gameId \<and> p_status p = confirmed) (game_players d)"
    by simp
  finally show ?thesis by (simp add: eligible_emails_def mapGameRow_def)
qed

lemma distinct_eligible_emails:
  assumes "distinct (map membership_key (game_players d))"
  shows "distinct (eligible_emails (mapGameRow json_parse to_String row (fetchPlayers d gameId)))"
  using distinct_fetchPlayers_emails [OF assms, of gameId]
  by (simp add: eligible_emails_def mapGameRow_def distinct_map_filter)

lemma isAdmin_rows:
  "isAdmin d gameId email
   \<longleftrightarrow> (\<exists>p\<in>set (game_players d).
          game_id p = gameId \<and> player_email p = email \<and> p_status p = admin)"
  by (auto simp: isAdmin_def filter_empty_conv)

lemma find_map_state:
  "find (\<lambda>g. g_id g = gid)
     (map (\<lambda>g. if g_id g = gid then g\<lparr>game_state := st\<rparr> else g) gs)
   = map_option (\<lambda>g. g\<lparr>game_state := st\<rparr>) (find (\<lambda>g. g_id g = gid) gs)"
  by (induction gs) auto

lemma getGame_saveGameState:
  "getGame json_parse to_String d gameId = Some game \<Longrightarrow>
   getGame json_parse to_String (saveGameState d gameId kvs) gameId
   = Some (game\<lparr>gameState := JObj kvs\<rparr>)"
  by (cases "find (\<lambda>g. g_id g = gameId) (games d)")
     (auto simp: getGame_def saveGameState_def find_map_state fetchPlayers_def mapGameRow_def
        parseGameState_object)

lemma saveGameState_rows:
  "game_players (saveGameState d gameId kvs) = game_players d"
  "length (games (saveGameState d gameId kvs)) = length (games d)"
  "i < length (games d) \<Longrightarrow> g_id (games d ! i) = gameId \<Longrightarrow>
   games (saveGameState d gameId kvs) ! i = (games d ! i)\<lparr>game_state := StoredObject kvs\<rparr>"
  "i < length (games d) \<Longrightarrow> g_id (games d ! i) \<noteq> gameId \<Longrightarrow>
   games (saveGameState d gameId kvs) ! i = games d ! i"
  by (simp_all add: saveGameState_def)

lemma map_of_update_same: "map_of (AList.update k v al) k = Some v"
  by (simp add: update_conv')

lemma reorder_NotFound:
  "find (\<lambda>g. g_id g = gameId) (games d) = None \<Longrightarrow>
   reorderPlayerOrder json_parse to_String d gameId adminEmail newOrder = (Inl NotFound, d)"
  by (simp add: reorderPlayerOrder_def getGame_find)

lemma reorder_InvalidPhase:
  "find (\<lambda>g. g_id g = gameId) (games d) = Some row \<Longrightarrow> g_status row \<noteq> not_started \<Longrightarrow>
   reorderPlayerOrder json_parse to_String d gameId adminEmail newOrder = (Inl InvalidPhase, d)"
  by (simp add: reorderPlayerOrder_def getGame_find mapGameRow_def)

lemma reorder_NotAuthorized:
  "find (\<lambda>g. g_id g = gameId) (games d) = Some row \<Longrightarrow> g_status row = not_started \<Longrightarrow>
   \<not> isAdmin d gameId adminEmail \<Longrightarrow>
   reorderPlayerOrder json_parse to_String d gameId adminEmail newOrder
   = (Inl NotAuthorized, d)"
  by (simp add: reorderPlayerOrder_def getGame_find mapGameRow_def)

lemma reorder_checked:
  assumes "find (\<lambda>g. g_id g = gameId) (games d) = Some row" "g_status row = not_started"
    "isAdmin d gameId adminEmail"
    and e: "eligible = map player_email
       (filter (\<lambda>p. game_id p = gameId \<and> p_status p = admin) (game_players d)
        @ filter (\<lambda>p. game_id p = gameId \<and> p_status p = confirmed) (game_players d))"
  shows "reorderPlayerOrder json_parse to_String d gameId adminEmail newOrder =
     (if length (normalizePlayerOrder newOrder eligible) \<noteq> length eligible
      then (Inl InvalidOrder, d)
      else (Inr (),
            saveGameState d gameId
              (AList.update ''playerOrder'' (JArr (map JStr (normalizePlayerOrder newOrder eligible)))
                 (js_spread (parseGameState json_parse to_String (game_state row))))))"
proof -
  let ?game = "mapGameRow json_parse to_String row (fetchPlayers d gameId)"
  have g: "getGame json_parse to_String d gameId = Some ?game"
    using assms(1) by (simp add: getGame_find)
  have s: "status ?game = not_started" "gameState ?game
           = parseGameState json_parse to_String (game_state row)"
    using assms(2) by (simp_all add: mapGameRow_def)
  have el: "eligible_emails ?game = eligible"
    unfolding e by (rule eligible_emails_rows)
  show ?thesis
    unfolding reorderPlayerOrder_def g option.case Let_def el s
    using assms(3) by (simp add: list_ex_iff normalizePlayerOrder_set)
qed

text \<open>
  C4. Membership rows are unique per (game, member). The eligible members of a
  game are the emails of its rows in \<open>game_players\<close> with role admin, followed by
  those with role confirmed. \<open>reorderPlayerOrder\<close> succeeds exactly when the
  \<open>games\<close> table has a row for the game, the status in that row is not_started,
  \<open>game_players\<close> has a row with role admin for the caller in that game, and the
  normalised order is a permutation of the eligible members. A call that fails
  leaves the database, and so the stored player order, as it was. After a call that
  succeeds the memberships are as before, the rows of other games are as before,
  the row of the game differs only in its state, the \<open>playerOrder\<close> of that state
  is the normalised order, and the game read back is the game read before with
  \<open>playerOrder\<close> set to the normalised order in its state. The normalised order
  is the proposed order filtered to the eligible members, followed by the eligible
  members the proposed order does not mention.
\<close>

theorem reorderPlayerOrder_spec:
  assumes uniq: "distinct (map membership_key (game_players d))"
  shows
    "(let eligible = map player_email
            (filter (\<lambda>p. game_id p = gameId \<and> p_status p = admin) (game_players d)
             @ filter (\<lambda>p. game_id p = gameId \<and> p_status p = confirmed) (game_players d));
          normalized = normalizePlayerOrder newOrder eligible;
          R = reorderPlayerOrder json_parse to_String d gameId adminEmail newOrder
      in (fst R = Inr ()
            \<longleftrightarrow> (\<exists>row. find (\<lambda>g. g_id g = gameId) (games d) = Some row
                        \<and> g_status row = not_started)
                \<and> (\<exists>p\<in>set (game_players d).
                      game_id p = gameId \<and> player_email p = adminEmail \<and> p_status p = admin)
                \<and> mset normalized = mset eligible)
         \<and> (fst R \<noteq> Inr () \<longrightarrow> snd R = d)
         \<and> (fst R = Inr () \<longrightarrow>
              game_players (snd R) = game_players d
              \<and> length (games (snd R)) = length (games d)
              \<and> (\<forall>i<length (games d).
                    (g_id (games d ! i) \<noteq> gameId \<longrightarrow> games (snd R) ! i = games d ! i)
                    \<and> (g_id (games d ! i) = gameId \<longrightarrow>
                         (\<exists>kvs. games (snd R) ! i = (games d ! i)\<lparr>game_state := StoredObject kvs\<rparr>
                                \<and> map_of kvs ''playerOrder'' = Some (JArr (map JStr normalized)))))
              \<and> (\<exists>game'. getGame json_parse to_String (snd R) gameId = Some game'
                    \<and> prop_of (gameState game') ''playerOrder''
                      = Some (JArr (map JStr normalized)))
              \<and> (\<forall>game. getGame json_parse to_String d gameId = Some game \<longrightarrow>
                    getGame json_parse to_String (snd R) gameId
                    = Some (game\<lparr>gameState :=
                              JObj (AList.update ''playerOrder'' (JArr (map JStr normalized))
                                      (js_spread (gameState game)))\<rparr>)))
         \<and> normalized = filter (\<lambda>e. e \<in> set eligible) newOrder
                          @ filter (\<lambda>e. e \<notin> set newOrder) eligible)"
proof -
  define eligible where "eligible = map player_email
            (filter (\<lambda>p. game_id p = gameId \<and> p_status p = admin) (game_players d)
             @ filter (\<lambda>p. game_id p = gameId \<and> p_status p = confirmed) (game_players d))"
  define normalized where "normalized = normalizePlayerOrder newOrder eligible"
  define R where "R = reorderPlayerOrder json_parse to_String d gameId adminEmail newOrder"
  have adm: "isAdmin d gameId adminEmail
             \<longleftrightarrow> (\<exists>p\<in>set (game_players d).
                    game_id p = gameId \<and> player_email p = adminEmail \<and> p_status p = admin)"
    by (rule isAdmin_rows)
  have dist: "distinct eligible"
  proof -
    have "distinct (eligible_emails
             (mapGameRow json_parse to_String undefined (fetchPlayers d gameId)))"
      using uniq by (rule distinct_eligible_emails)
    then show ?thesis by (simp only: eligible_emails_rows eligible_def)
  qed
  have D: "normalized = filter (\<lambda>e. e \<in> set eligible) newOrder
                          @ filter (\<lambda>e. e \<notin> set newOrder) eligible"
    unfolding normalized_def using dist by (rule normalizePlayerOrder_distinct_eligible)
  have perm: "mset normalized = mset eligible \<longleftrightarrow> length normalized = length eligible"
    unfolding normalized_def using dist by (rule normalizePlayerOrder_perm_iff)
  let ?A = "fst R = Inr ()
            \<longleftrightarrow> (\<exists>row. find (\<lambda>g. g_id g = gameId) (games d) = Some row
                        \<and> g_status row = not_started)
                \<and> (\<exists>p\<in>set (game_players d).
                      game_id p = gameId \<and> player_email p = adminEmail \<and> p_status p = admin)
                \<and> mset normalized = mset eligible"
  let ?B = "fst R \<noteq> Inr () \<longrightarrow> snd R = d"
  let ?C = "fst R = Inr () \<longrightarrow>
              game_players (snd R) = game_players d
              \<and> length (games (snd R)) = length (games d)
              \<and> (\<forall>i<length (games d).
                    (g_id (games d ! i) \<noteq> gameId \<longrightarrow> games (snd R) ! i = games d ! i)
                    \<and> (g_id (games d ! i) = gameId \<longrightarrow>
                         (\<exists>kvs. games (snd R) ! i = (games d ! i)\<lparr>game_state := StoredObject kvs\<rparr>
                                \<and> map_of kvs ''playerOrder'' = Some (JArr (map JStr normalized)))))
              \<and> (\<exists>game'. getGame json_parse to_String (snd R) gameId = Some game'
                    \<and> prop_of (gameState game') ''playerOrder''
                      = Some (JArr (map JStr normalized)))
              \<and> (\<forall>game. getGame json_parse to_String d gameId = Some game \<longrightarrow>
                    getGame json_parse to_String (snd R) gameId
                    = Some (game\<lparr>gameState :=
                              JObj (AList.update ''playerOrder'' (JArr (map JStr normalized))
                                      (js_spread (gameState game)))\<rparr>))"
  have ABC: "?A \<and> ?B \<and> ?C"
  proof (cases "find (\<lambda>g. g_id g = gameId) (games d)")
    case None
    have r: "R = (Inl NotFound, d)" unfolding R_def using None by (rule reorder_NotFound)
    show ?thesis using None by (simp add: r)
  next
    case (Some row)
    show ?thesis
    proof (cases "g_status row = not_started \<and> isAdmin d gameId adminEmail")
      case False
      have r: "R = (Inl InvalidPhase, d) \<or> R = (Inl NotAuthorized, d)"
        unfolding R_def
        using False
          reorder_InvalidPhase [OF Some, where json_parse = json_parse
            and to_String = to_String and adminEmail = adminEmail and newOrder = newOrder]
          reorder_NotAuthorized [OF Some, where json_parse = json_parse
            and to_String = to_String and adminEmail = adminEmail and newOrder = newOrder]
        by blast
      have nok: "fst R \<noteq> Inr ()" and same: "snd R = d" using r by auto
      have ?A using nok False Some adm by auto
      then show ?thesis using nok same by simp
    next
      case True
      then have st: "g_status row = not_started" and ad: "isAdmin d gameId adminEmail"
        by simp_all
      note chk = reorder_checked [OF Some st ad eligible_def, where json_parse = json_parse
          and to_String = to_String and newOrder = newOrder, folded normalized_def R_def]
      show ?thesis
      proof (cases "length normalized = length eligible")
        case len: False
        have r: "R = (Inl InvalidOrder, d)" using chk len by simp
        have ?A using len perm by (simp add: r)
        then show ?thesis by (simp add: r)
      next
        case len: True
        let ?kvs = "AList.update ''playerOrder'' (JArr (map JStr normalized))
                      (js_spread (parseGameState json_parse to_String (game_state row)))"
        let ?game = "mapGameRow json_parse to_String row (fetchPlayers d gameId)"
        have r: "R = (Inr (), saveGameState d gameId ?kvs)" using chk len by simp
        have g: "getGame json_parse to_String d gameId = Some ?game"
          using Some by (simp add: getGame_find)
        have gs: "gameState ?game = parseGameState json_parse to_String (game_state row)"
          by (simp add: mapGameRow_def)
        have po: "map_of ?kvs ''playerOrder'' = Some (JArr (map JStr normalized))"
          by (rule map_of_update_same)
        have A: ?A using Some st ad adm perm len by (simp add: r)
        have c1: "game_players (snd R) = game_players d"
          and c2: "length (games (snd R)) = length (games d)"
          by (simp_all add: r saveGameState_rows)
        have c3: "\<forall>i<length (games d).
                    (g_id (games d ! i) \<noteq> gameId \<longrightarrow> games (snd R) ! i = games d ! i)
                    \<and> (g_id (games d ! i) = gameId \<longrightarrow>
                         (\<exists>kvs. games (snd R) ! i = (games d ! i)\<lparr>game_state := StoredObject kvs\<rparr>
                                \<and> map_of kvs ''playerOrder'' = Some (JArr (map JStr normalized))))"
        proof (intro allI impI conjI)
          fix i assume "i < length (games d)" "g_id (games d ! i) \<noteq> gameId"
          then show "games (snd R) ! i = games d ! i" by (simp add: r saveGameState_rows)
        next
          fix i assume "i < length (games d)" "g_id (games d ! i) = gameId"
          then have "games (snd R) ! i = (games d ! i)\<lparr>game_state := StoredObject ?kvs\<rparr>"
            by (simp add: r saveGameState_rows)
          then show "\<exists>kvs. games (snd R) ! i = (games d ! i)\<lparr>game_state := StoredObject kvs\<rparr>
                        \<and> map_of kvs ''playerOrder'' = Some (JArr (map JStr normalized))"
            using po by (intro exI [of _ ?kvs] conjI)
        qed
        have g': "getGame json_parse to_String (snd R) gameId
                  = Some (?game\<lparr>gameState := JObj ?kvs\<rparr>)"
          using g by (simp add: r getGame_saveGameState)
        have c4: "\<exists>game'. getGame json_parse to_String (snd R) gameId = Some game'
                    \<and> prop_of (gameState game') ''playerOrder''
                      = Some (JArr (map JStr normalized))"
          using g' po by (intro exI [of _ "?game\<lparr>gameState := JObj ?kvs\<rparr>"]) (simp add: prop_of_def)
        have c5: "\<forall>game. getGame json_parse to_String d gameId = Some game \<longrightarrow>
                    getGame json_parse to_String (snd R) gameId
                    = Some (game\<lparr>gameState :=
                              JObj (AList.update ''playerOrder'' (JArr (map JStr normalized))
                                      (js_spread (gameState game)))\<rparr>)"
          using g' by (simp add: g gs)
        show ?thesis using A c1 c2 c3 c4 c5 r by simp
      qed
    qed
  qed
  show ?thesis
    unfolding Let_def eligible_def [symmetric] normalized_def [symmetric] R_def [symmetric]
    using ABC D by simp
qed

theorem reorderPlayerOrder_spec_witness:
  "distinct (map membership_key (game_players db_two_games))
   \<and> fst (reorderPlayerOrder json_parse_example (\<lambda>v. []) db_two_games 1 ''a@x.com''
            [''b@x.com'', ''a@x.com'']) = Inr ()
   \<and> map_option (\<lambda>g. prop_of (gameState g) ''playerOrder'')
        (getGame json_parse_example (\<lambda>v. [])
           (snd (reorderPlayerOrder json_parse_example (\<lambda>v. []) db_two_games 1 ''a@x.com''
                   [''b@x.com'', ''a@x.com''])) 1)
      = Some (Some (JArr [JStr ''b@x.com'', JStr ''a@x.com'']))
   \<and> fst (reorderPlayerOrder json_parse_example (\<lambda>v. []) db_two_games 1 ''a@x.com''
            [''a@x.com'', ''a@x.com'']) \<noteq> Inr ()
   \<and> snd (reorderPlayerOrder json_parse_example (\<lambda>v. []) db_two_games 1 ''a@x.com''
            [''a@x.com'', ''a@x.com''])
     = db_two_games
   \<and> fst (reorderPlayerOrder json_parse_example (\<lambda>v. []) db_two_games 1 ''b@x.com''
            [''b@x.com'', ''a@x.com'']) \<noteq> Inr ()"
proof -
  let ?E = "map player_email
            (filter (\<lambda>p. game_id p = 1 \<and> p_status p = admin) (game_players db_two_games)
             @ filter (\<lambda>p. game_id p = 1 \<and> p_status p = confirmed) (game_players db_two_games))"
  let ?R1 = "reorderPlayerOrder json_parse_example (\<lambda>v. []) db_two_games 1 ''a@x.com''
               [''b@x.com'', ''a@x.com'']"
  let ?R2 = "reorderPlayerOrder json_parse_example (\<lambda>v. []) db_two_games 1 ''a@x.com''
               [''a@x.com'', ''a@x.com'']"
  let ?R3 = "reorderPlayerOrder json_parse_example (\<lambda>v. []) db_two_games 1 ''b@x.com''
               [''b@x.com'', ''a@x.com'']"
  have u: "distinct (map membership_key (game_players db_two_games))"
    by (simp add: db_two_games_def membership_key_def)
  have f: "\<exists>row. find (\<lambda>g. g_id g = 1) (games db_two_games) = Some row
                \<and> g_status row = not_started"
    by (simp add: db_two_games_def)
  have a: "\<exists>p\<in>set (game_players db_two_games).
             game_id p = 1 \<and> player_email p = ''a@x.com'' \<and> p_status p = admin"
    by (simp add: db_two_games_def)
  have b: "\<not> (\<exists>p\<in>set (game_players db_two_games).
             game_id p = 1 \<and> player_email p = ''b@x.com'' \<and> p_status p = admin)"
    by (simp add: db_two_games_def)
  have e: "?E = [''a@x.com'', ''b@x.com'']"
    by (simp add: db_two_games_def)
  have n1: "normalizePlayerOrder [''b@x.com'', ''a@x.com''] [''a@x.com'', ''b@x.com'']
            = [''b@x.com'', ''a@x.com'']"
    by (simp add: normalizePlayerOrder_def)
  have n2: "normalizePlayerOrder [''a@x.com'', ''a@x.com''] [''a@x.com'', ''b@x.com'']
            = [''a@x.com'', ''a@x.com'', ''b@x.com'']"
    by (simp add: normalizePlayerOrder_def)
  have p1: "mset (normalizePlayerOrder [''b@x.com'', ''a@x.com''] ?E) = mset ?E"
    unfolding e n1 by simp
  have p2: "mset (normalizePlayerOrder [''a@x.com'', ''a@x.com''] ?E) \<noteq> mset ?E"
    unfolding e n2 by simp
  note t1 = reorderPlayerOrder_spec [OF u, where gameId = 1 and newOrder = "[''b@x.com'', ''a@x.com'']"
      and json_parse = json_parse_example and to_String = "\<lambda>v. []"
      and adminEmail = "''a@x.com''", unfolded Let_def]
  note t2 = reorderPlayerOrder_spec [OF u, where gameId = 1 and newOrder = "[''a@x.com'', ''a@x.com'']"
      and json_parse = json_parse_example and to_String = "\<lambda>v. []"
      and adminEmail = "''a@x.com''", unfolded Let_def]
  note t3 = reorderPlayerOrder_spec [OF u, where gameId = 1 and newOrder = "[''b@x.com'', ''a@x.com'']"
      and json_parse = json_parse_example and to_String = "\<lambda>v. []"
      and adminEmail = "''b@x.com''", unfolded Let_def]
  have ok: "fst ?R1 = Inr ()"
    using t1 f a p1 by blast
  obtain game' where g': "getGame json_parse_example (\<lambda>v. []) (snd ?R1) 1 = Some game'"
    "prop_of (gameState game') ''playerOrder''
     = Some (JArr (map JStr (normalizePlayerOrder [''b@x.com'', ''a@x.com''] ?E)))"
    using t1 ok by blast
  have po: "map_option (\<lambda>g. prop_of (gameState g) ''playerOrder'')
              (getGame json_parse_example (\<lambda>v. []) (snd ?R1) 1)
            = Some (Some (JArr [JStr ''b@x.com'', JStr ''a@x.com'']))"
    using g'(2) unfolding g'(1) e n1 by simp
  have bad: "fst ?R2 \<noteq> Inr ()"
    using t2 p2 by blast
  have same: "snd ?R2 = db_two_games"
    using t2 bad by blast
  have bad3: "fst ?R3 \<noteq> Inr ()"
    using t3 b by blast
  show ?thesis
    using u ok po bad same bad3 by blast
qed


section \<open>Board layout\<close>


lemma random_index_rounds_up:
  "nat \<lfloor>double_mul (3752999689475413 / 4503599627370496) (real (Suc 4 + 1))\<rfloor> = 5"
proof -
  let ?x = "3752999689475413 / 4503599627370496 * 6 :: real"
  have pos: "0 < ?x" by simp
  have "2 powi 2 \<le> ?x" by simp
  moreover have "?x < 2 powi (2 + 1)" by simp
  ultimately have b: "binade ?x = 2" by (rule binade_eq) simp_all
  have u: "(2::real) powi (2 - 52) = 1 / 1125899906842624"
    by (simp add: power_int_minus field_simps)
  have q: "?x / (1 / 1125899906842624) = 11258999068426239 / 2" by simp
  have fl: "\<lfloor>11258999068426239 / 2 :: real\<rfloor> = 5629499534213119" by simp
  have rh: "round_half_even (11258999068426239 / 2) = 5629499534213120"
    unfolding round_half_even_def Let_def fl by simp
  have "round_double ?x = of_int 5629499534213120 * (1 / 1125899906842624)"
    unfolding round_double_pos [OF pos] b u q rh ..
  then have "double_mul (3752999689475413 / 4503599627370496) 6 = 5"
    by (simp add: double_mul_def)
  then show ?thesis by simp
qed






lemma assign_tiles_ids: "map tile_id (assign_tiles i ts toks) = [i + 1 ..< i + 1 + length ts]"
proof (induction ts arbitrary: i toks)
  case Nil
  then show ?case by simp
next
  case (Cons t ts)
  have "[i + 1 ..< i + 1 + length (t # ts)] = (i + 1) # [i + 1 + 1 ..< i + 1 + 1 + length ts]"
    by (simp add: upt_rec)
  then show ?case using Cons.IH [of "i + 1"] by (simp split: list.splits)
qed
























section \<open>Reading a stored game state\<close>











section \<open>Well-formed databases\<close>

text \<open>
  The empty database is well formed and every operation keeps a database well
  formed; the hypotheses on keys in the statements above hold in every state the
  service can reach.
\<close>

lemma wf_db_empty: "wf_db empty_db"
  by (simp add: wf_db_def ids_allocated_def empty_db_def)

lemma wf_db_map_players:
  assumes wf: "wf_db d"
    and keep: "\<And>p. p_id (f p) = p_id p \<and> game_id (f p) = game_id p
                    \<and> player_email (f p) = player_email p"
  shows "wf_db (d\<lparr>game_players := map f (game_players d)\<rparr>)"
proof -
  have k: "membership_key \<circ> f = membership_key"
    using keep by (auto simp: membership_key_def fun_eq_iff)
  have i: "p_id \<circ> f = p_id"
    using keep by (auto simp: fun_eq_iff)
  have a: "list_all (\<lambda>p. game_id p < next_game_id d \<and> p_id p < next_player_id d)
             (map f (game_players d))"
    using wf keep by (simp add: wf_db_def ids_allocated_def list_all_iff)
  show ?thesis
    using wf a by (simp add: wf_db_def ids_allocated_def k i)
qed

lemma wf_db_filter_players:
  assumes wf: "wf_db d"
  shows "wf_db (d\<lparr>game_players := filter P (game_players d)\<rparr>)"
  using wf by (simp add: wf_db_def ids_allocated_def list_all_iff distinct_map_filter)

lemma wf_db_map_games:
  assumes wf: "wf_db d" and keep: "\<And>g. g_id (f g) = g_id g"
  shows "wf_db (d\<lparr>games := map f (games d)\<rparr>)"
proof -
  have i: "g_id \<circ> f = g_id" using keep by (auto simp: fun_eq_iff)
  show ?thesis
    using wf keep by (simp add: wf_db_def ids_allocated_def list_all_iff i)
qed

lemma wf_db_filter_games:
  assumes wf: "wf_db d"
  shows "wf_db (d\<lparr>games := filter P (games d)\<rparr>)"
  using wf by (simp add: wf_db_def ids_allocated_def list_all_iff distinct_map_filter)

lemma wf_db_add_player:
  assumes wf: "wf_db d" and gid: "gameId < next_game_id d"
    and fresh: "\<forall>p\<in>set (game_players d). membership_key p \<noteq> (gameId, email)"
  shows "wf_db (d\<lparr>game_players := game_players d @
                    [\<lparr>p_id = next_player_id d, game_id = gameId, player_email = email,
                      p_status = st, is_current = c\<rparr>],
                  next_player_id := Suc (next_player_id d)\<rparr>)"
proof -
  have lt: "\<forall>p\<in>set (game_players d). p_id p < next_player_id d"
    using wf by (simp add: wf_db_def ids_allocated_def list_all_iff)
  then have nid: "next_player_id d \<notin> p_id ` set (game_players d)" by auto
  have nkey: "(gameId, email) \<notin> membership_key ` set (game_players d)"
    using fresh by auto
  have lt': "\<forall>p\<in>set (game_players d). p_id p < Suc (next_player_id d)"
    using lt by auto
  show ?thesis
    using wf gid nid nkey lt'
    by (simp add: wf_db_def ids_allocated_def list_all_iff membership_key_def)
qed

lemma wf_db_add_game:
  assumes wf: "wf_db d"
  shows "wf_db (d\<lparr>games := games d @ [row\<lparr>g_id := next_game_id d\<rparr>],
                  next_game_id := Suc (next_game_id d)\<rparr>)"
proof -
  have lt: "\<forall>g\<in>set (games d). g_id g < next_game_id d"
    using wf by (simp add: wf_db_def ids_allocated_def list_all_iff)
  then have nid: "next_game_id d \<notin> g_id ` set (games d)" by auto
  have lt': "\<forall>g\<in>set (games d). g_id g < Suc (next_game_id d)"
    using lt by auto
  have pl: "\<forall>p\<in>set (game_players d). game_id p < Suc (next_game_id d)"
    using wf by (auto simp: wf_db_def ids_allocated_def list_all_iff)
  show ?thesis
    using wf nid lt' pl
    by (simp add: wf_db_def ids_allocated_def list_all_iff)
qed

lemma find_None_no_key:
  "find (\<lambda>p. game_id p = g \<and> player_email p = e) ps = None \<Longrightarrow>
   \<forall>p\<in>set ps. membership_key p \<noteq> (g, e)"
  by (induction ps) (auto simp: membership_key_def split: if_splits)

lemma find_Some_mem: "find P xs = Some x \<Longrightarrow> x \<in> set xs"
  by (induction xs) (auto split: if_splits)

lemma wf_db_approvePlayer:
  "wf_db d \<Longrightarrow> wf_db (snd (approvePlayer d gameId targetEmail adminEmail))"
proof (cases "isAdmin d gameId adminEmail")
  case False
  assume "wf_db d"
  then show ?thesis using False by (simp add: approvePlayer_def)
next
  case True
  assume wf: "wf_db d"
  have "wf_db (d\<lparr>game_players :=
                 map (\<lambda>p. if game_id p = gameId \<and> player_email p = targetEmail
                           then p\<lparr>p_status := confirmed\<rparr> else p) (game_players d)\<rparr>)"
    using wf by (rule wf_db_map_players) simp
  then show ?thesis using True by (simp add: approvePlayer_def Let_def)
qed

lemma wf_db_rejectPlayer:
  "wf_db d \<Longrightarrow> wf_db (snd (rejectPlayer d gameId targetEmail adminEmail))"
  by (cases "isAdmin d gameId adminEmail")
     (simp_all add: rejectPlayer_def Let_def wf_db_filter_players)

lemma wf_db_removePlayer:
  "wf_db d \<Longrightarrow> wf_db (snd (removePlayer d gameId targetEmail adminEmail))"
  by (cases "isAdmin d gameId adminEmail"; cases "getPlayer d gameId targetEmail")
     (simp_all add: removePlayer_def wf_db_filter_players)

lemma wf_db_leaveGame:
  "wf_db d \<Longrightarrow> wf_db (snd (leaveGame d gameId email))"
  by (cases "getPlayer d gameId email") (simp_all add: leaveGame_def wf_db_filter_players)

lemma wf_db_deleteGame:
  "wf_db d \<Longrightarrow> wf_db (snd (deleteGame d gameId adminEmail))"
proof -
  assume wf: "wf_db d"
  have "wf_db (d\<lparr>games := filter (\<lambda>g. g_id g \<noteq> gameId) (games d)\<rparr>)"
    using wf by (rule wf_db_filter_games)
  then have "wf_db (d\<lparr>games := filter (\<lambda>g. g_id g \<noteq> gameId) (games d)\<rparr>
                    \<lparr>game_players := filter (\<lambda>p. game_id p \<noteq> gameId)
                       (game_players (d\<lparr>games := filter (\<lambda>g. g_id g \<noteq> gameId) (games d)\<rparr>))\<rparr>)"
    by (rule wf_db_filter_players)
  then show ?thesis using wf by (simp add: deleteGame_def Let_def)
qed

lemma wf_db_setCurrentGameForUser:
  "wf_db d \<Longrightarrow> wf_db (snd (setCurrentGameForUser d gameId email))"
proof (cases "getPlayer d gameId email")
  case None
  assume "wf_db d"
  then show ?thesis using None by (simp add: setCurrentGameForUser_def)
next
  case (Some row)
  assume wf: "wf_db d"
  have "wf_db (d\<lparr>game_players := map (set_flag gameId email) (game_players d)\<rparr>)"
    using wf by (rule wf_db_map_players) (simp add: set_flag_def)
  then show ?thesis by (simp add: setCurrent_rows [OF Some])
qed

lemma wf_db_saveGameState: "wf_db d \<Longrightarrow> wf_db (saveGameState d gameId st)"
  unfolding saveGameState_def by (rule wf_db_map_games) simp_all

lemma wf_db_updateGameStatus:
  "wf_db d \<Longrightarrow> wf_db (snd (updateGameStatus d gameId adminEmail st))"
proof (cases "isAdmin d gameId adminEmail")
  case False
  assume "wf_db d"
  then show ?thesis using False by (simp add: updateGameStatus_def)
next
  case True
  assume wf: "wf_db d"
  have "wf_db (d\<lparr>games := map (\<lambda>g. if g_id g = gameId then g\<lparr>g_status := st\<rparr> else g)
                               (games d)\<rparr>)"
    using wf by (rule wf_db_map_games) simp
  then show ?thesis using True by (simp add: updateGameStatus_def Let_def)
qed

lemma wf_db_reorderPlayerOrder:
  "wf_db d \<Longrightarrow> wf_db (snd (reorderPlayerOrder json_parse to_String d gameId adminEmail newOrder))"
  by (cases "getGame json_parse to_String d gameId")
     (simp_all add: reorderPlayerOrder_def Let_def wf_db_saveGameState)

lemma wf_db_generateGameLayout:
  "wf_db d \<Longrightarrow> wf_db (snd (generateGameLayout json_parse to_String d rnd gameId adminEmail preset))"
  by (cases "getGame json_parse to_String d gameId")
     (simp_all add: generateGameLayout_def Let_def wf_db_saveGameState
        split: sum.splits option.splits json.splits)

lemma wf_db_requestJoinGame:
  "wf_db d \<Longrightarrow> wf_db (snd (requestJoinGame json_parse to_String d code email))"
proof (cases "getGameByJoinCode json_parse to_String d code")
  case None
  assume "wf_db d"
  then show ?thesis using None by (simp add: requestJoinGame_def)
next
  case (Some game)
  assume wf: "wf_db d"
  show ?thesis
  proof (cases "getPlayer d (gw_id game) email")
    case (Some existing)
    then show ?thesis
      using wf \<open>getGameByJoinCode json_parse to_String d code = Some game\<close> by (simp add: requestJoinGame_def)
  next
    case None
    obtain row where row: "find (\<lambda>g. join_code g = code) (games d) = Some row"
      "gw_id game = g_id row"
      using \<open>getGameByJoinCode json_parse to_String d code = Some game\<close>
      by (auto simp: getGameByJoinCode_def mapGameRow_def split: option.splits)
    have "row \<in> set (games d)" using row(1) by (rule find_Some_mem)
    then have gid: "gw_id game < next_game_id d"
      using wf row(2) by (simp add: wf_db_def ids_allocated_def list_all_iff)
    have fresh: "\<forall>p\<in>set (game_players d). membership_key p \<noteq> (gw_id game, email)"
      using None unfolding getPlayer_def by (rule find_None_no_key)
    have "wf_db (d\<lparr>game_players := game_players d @
                    [\<lparr>p_id = next_player_id d, game_id = gw_id game, player_email = email,
                      p_status = waiting, is_current = False\<rparr>],
                  next_player_id := Suc (next_player_id d)\<rparr>)"
      using wf gid fresh by (rule wf_db_add_player)
    then show ?thesis
      using None \<open>getGameByJoinCode json_parse to_String d code = Some game\<close> by (simp add: requestJoinGame_def)
  qed
qed

lemma wf_db_createGame:
  "wf_db d \<Longrightarrow> wf_db (snd (createGame json_parse to_String d rnd name creatorEmail))"
proof (cases "generateJoinCode d rnd")
  case (Inl e)
  assume "wf_db d"
  then show ?thesis using Inl by (simp add: createGame_def)
next
  case (Inr code)
  assume wf: "wf_db d"
  let ?row = "\<lparr>g_id = next_game_id d, g_name = name, join_code = code,
              created_by = creatorEmail, g_status = not_started,
              game_state = StoredObject [(''playerOrder'', JArr [JStr creatorEmail]),
                                         (''tiles'', JArr [])]\<rparr>"
  let ?d1 = "d\<lparr>games := games d @ [?row\<lparr>g_id := next_game_id d\<rparr>],
               next_game_id := Suc (next_game_id d)\<rparr>"
  have wf1: "wf_db ?d1" using wf by (rule wf_db_add_game)
  have g: "\<forall>g\<in>set (games d). g_id g \<noteq> next_game_id d"
    using wf by (auto simp: wf_db_def ids_allocated_def list_all_iff)
  have p: "\<forall>p\<in>set (game_players d). game_id p \<noteq> next_game_id d"
    using wf by (auto simp: wf_db_def ids_allocated_def list_all_iff)
  have fresh: "\<forall>p\<in>set (game_players ?d1). membership_key p \<noteq> (next_game_id d, creatorEmail)"
    using p by (simp add: membership_key_def)
  have "wf_db (?d1\<lparr>game_players := game_players ?d1 @
                    [\<lparr>p_id = next_player_id ?d1, game_id = next_game_id d,
                      player_email = creatorEmail, p_status = admin,
                      is_current = (current_rows d creatorEmail = [])\<rparr>],
                  next_player_id := Suc (next_player_id ?d1)\<rparr>)"
    using wf1 _ fresh by (rule wf_db_add_player) simp
  then show ?thesis
    by (simp add: createGame_unfold [OF Inr g p])
qed

section \<open>One admin per game\<close>

lemma admin_count_rows:
  "admin_count d gameId
   = length (filter (\<lambda>(g, s). g = gameId \<and> s = admin)
       (map (\<lambda>p. (game_id p, p_status p)) (game_players d)))"
  by (simp add: admin_count_def filter_map comp_def)

lemma one_admin_cong:
  assumes "one_admin_per_game d"
    and "map g_id (games d') = map g_id (games d)"
    and "map (\<lambda>p. (game_id p, p_status p)) (game_players d')
         = map (\<lambda>p. (game_id p, p_status p)) (game_players d)"
  shows "one_admin_per_game d'"
proof -
  have c: "admin_count d' g = admin_count d g" for g
    by (simp only: admin_count_rows assms(3))
  have "set (map g_id (games d')) = set (map g_id (games d))"
    by (simp only: assms(2))
  then have im: "g_id ` set (games d') = g_id ` set (games d)" by simp
  have "admin_count d' (g_id g) = 1" if "g \<in> set (games d')" for g
  proof -
    have "g_id g \<in> g_id ` set (games d)" using that im by blast
    then obtain g0 where "g0 \<in> set (games d)" "g_id g0 = g_id g" by auto
    then show ?thesis
      using assms(1) by (auto simp: one_admin_per_game_def list_all_iff c)
  qed
  then show ?thesis
    by (simp add: one_admin_per_game_def list_all_iff)
qed

lemma one_admin_saveGameState:
  "one_admin_per_game d \<Longrightarrow> one_admin_per_game (saveGameState d gameId st)"
  by (erule one_admin_cong) (simp_all add: saveGameState_def comp_def cong: if_cong)

lemma one_admin_reorderPlayerOrder:
  "one_admin_per_game d \<Longrightarrow>
   one_admin_per_game (snd (reorderPlayerOrder json_parse to_String d gameId adminEmail newOrder))"
  by (cases "getGame json_parse to_String d gameId")
     (simp_all add: reorderPlayerOrder_def Let_def one_admin_saveGameState)

lemma one_admin_generateGameLayout:
  "one_admin_per_game d \<Longrightarrow>
   one_admin_per_game (snd (generateGameLayout json_parse to_String d rnd gameId adminEmail preset))"
  by (cases "getGame json_parse to_String d gameId")
     (simp_all add: generateGameLayout_def Let_def one_admin_saveGameState
        split: sum.splits option.splits json.splits)

lemma one_admin_updateGameStatus:
  "one_admin_per_game d \<Longrightarrow>
   one_admin_per_game (snd (updateGameStatus d gameId adminEmail st))"
  by (erule one_admin_cong)
     (simp_all add: updateGameStatus_def Let_def comp_def cong: if_cong)

lemma one_admin_setCurrentGameForUser:
  "one_admin_per_game d \<Longrightarrow>
   one_admin_per_game (snd (setCurrentGameForUser d gameId email))"
proof (cases "getPlayer d gameId email")
  case None
  assume "one_admin_per_game d"
  then show ?thesis using None by (simp add: setCurrentGameForUser_def)
next
  case (Some row)
  assume "one_admin_per_game d"
  then show ?thesis
    by (rule one_admin_cong) (simp_all add: setCurrent_rows [OF Some] comp_def set_flag_def)
qed

lemma one_admin_filter_players:
  assumes inv: "one_admin_per_game d"
    and keep: "\<forall>p\<in>set (game_players d). p_status p = admin \<and> game_id p \<in> g_id ` set (games d)
                 \<longrightarrow> P p"
  shows "one_admin_per_game (d\<lparr>game_players := filter P (game_players d)\<rparr>)"
proof -
  have "admin_count (d\<lparr>game_players := filter P (game_players d)\<rparr>) (g_id g) = admin_count d (g_id g)"
    if "g \<in> set (games d)" for g
  proof -
    have "filter (\<lambda>p. (game_id p = g_id g \<and> p_status p = admin) \<and> P p) (game_players d)
          = filter (\<lambda>p. game_id p = g_id g \<and> p_status p = admin) (game_players d)"
      using keep that by (intro filter_cong) auto
    then show ?thesis by (simp add: admin_count_def conj_commute)
  qed
  then show ?thesis
    using inv by (simp add: one_admin_per_game_def list_all_iff)
qed

lemma one_admin_rejectPlayer:
  "one_admin_per_game d \<Longrightarrow>
   one_admin_per_game (snd (rejectPlayer d gameId targetEmail adminEmail))"
proof (cases "isAdmin d gameId adminEmail")
  case False
  assume "one_admin_per_game d"
  then show ?thesis using False by (simp add: rejectPlayer_def)
next
  case True
  assume inv: "one_admin_per_game d"
  have "one_admin_per_game
          (d\<lparr>game_players :=
               filter (\<lambda>p. \<not> (game_id p = gameId \<and> player_email p = targetEmail
                              \<and> p_status p = waiting)) (game_players d)\<rparr>)"
    using inv by (rule one_admin_filter_players) simp
  then show ?thesis using True by (simp add: rejectPlayer_def Let_def)
qed

lemma one_admin_delete_row:
  assumes inv: "one_admin_per_game d" and ids: "distinct (map p_id (game_players d))"
    and row: "row \<in> set (game_players d)" "p_status row \<noteq> admin"
  shows "one_admin_per_game
           (d\<lparr>game_players := filter (\<lambda>p. p_id p \<noteq> p_id row) (game_players d)\<rparr>)"
proof -
  have "p = row" if "p \<in> set (game_players d)" "p_id p = p_id row" for p
    using ids that row(1) by (metis distinct_map inj_onD)
  then have "\<forall>p\<in>set (game_players d). p_status p = admin \<and> game_id p \<in> g_id ` set (games d)
                 \<longrightarrow> p_id p \<noteq> p_id row"
    using row(2) by auto
  with inv show ?thesis by (rule one_admin_filter_players)
qed

lemma one_admin_removePlayer:
  assumes inv: "one_admin_per_game d" and ids: "distinct (map p_id (game_players d))"
  shows "one_admin_per_game (snd (removePlayer d gameId targetEmail adminEmail))"
proof (cases "getPlayer d gameId targetEmail")
  case None
  then show ?thesis using inv by (simp add: removePlayer_def)
next
  case (Some target)
  have mem: "target \<in> set (game_players d)"
    using Some unfolding getPlayer_def by (rule find_Some_mem)
  show ?thesis
  proof (cases "isAdmin d gameId adminEmail \<and> p_status target \<noteq> admin")
    case False
    then show ?thesis using inv Some by (auto simp: removePlayer_def)
  next
    case True
    then show ?thesis
      using Some one_admin_delete_row [OF inv ids mem] by (simp add: removePlayer_def)
  qed
qed

lemma one_admin_leaveGame:
  assumes inv: "one_admin_per_game d" and ids: "distinct (map p_id (game_players d))"
  shows "one_admin_per_game (snd (leaveGame d gameId email))"
proof (cases "getPlayer d gameId email")
  case None
  then show ?thesis using inv by (simp add: leaveGame_def)
next
  case (Some player)
  have mem: "player \<in> set (game_players d)"
    using Some unfolding getPlayer_def by (rule find_Some_mem)
  show ?thesis
  proof (cases "p_status player = admin")
    case True
    then show ?thesis using inv Some by (simp add: leaveGame_def)
  next
    case False
    then show ?thesis
      using Some one_admin_delete_row [OF inv ids mem] by (simp add: leaveGame_def)
  qed
qed

lemma one_admin_deleteGame:
  assumes inv: "one_admin_per_game d"
  shows "one_admin_per_game (snd (deleteGame d gameId adminEmail))"
proof (cases "isAdmin d gameId adminEmail \<and> filter (\<lambda>g. g_id g = gameId) (games d) \<noteq> []")
  case False
  then show ?thesis using inv by (auto simp: deleteGame_def Let_def)
next
  case True
  let ?d' = "d\<lparr>games := filter (\<lambda>g. g_id g \<noteq> gameId) (games d),
               game_players := filter (\<lambda>p. game_id p \<noteq> gameId) (game_players d)\<rparr>"
  have "admin_count ?d' (g_id g) = admin_count d (g_id g)" if "g_id g \<noteq> gameId" for g
  proof -
    have "filter (\<lambda>p. (game_id p = g_id g \<and> p_status p = admin) \<and> game_id p \<noteq> gameId)
            (game_players d)
          = filter (\<lambda>p. game_id p = g_id g \<and> p_status p = admin) (game_players d)"
      using that by (intro filter_cong) auto
    then show ?thesis by (simp add: admin_count_def conj_commute)
  qed
  note cnt = this
  have "admin_count ?d' (g_id g) = 1" if "g \<in> set (games ?d')" for g
  proof -
    have m: "g \<in> set (games d)" "g_id g \<noteq> gameId" using that by simp_all
    have "admin_count d (g_id g) = 1"
      using inv m(1) by (simp add: one_admin_per_game_def list_all_iff)
    then show ?thesis using cnt [OF m(2)] by simp
  qed
  then have "one_admin_per_game ?d'"
    unfolding one_admin_per_game_def list_all_iff by blast
  then show ?thesis using True by (simp add: deleteGame_def Let_def)
qed

lemma admin_count_append:
  "admin_count (d\<lparr>game_players := game_players d @ [row], next_player_id := n\<rparr>) g
   = admin_count d g + (if game_id row = g \<and> p_status row = admin then 1 else 0)"
  by (simp add: admin_count_def)

lemma one_admin_requestJoinGame:
  assumes inv: "one_admin_per_game d"
  shows "one_admin_per_game (snd (requestJoinGame json_parse to_String d code email))"
proof (cases "getGameByJoinCode json_parse to_String d code")
  case None
  then show ?thesis using inv by (simp add: requestJoinGame_def)
next
  case (Some game)
  show ?thesis
  proof (cases "getPlayer d (gw_id game) email")
    case (Some existing)
    then show ?thesis
      using inv \<open>getGameByJoinCode json_parse to_String d code = Some game\<close> by (simp add: requestJoinGame_def)
  next
    case None
    let ?row = "\<lparr>p_id = next_player_id d, game_id = gw_id game, player_email = email,
                 p_status = waiting, is_current = False\<rparr>"
    have "one_admin_per_game
            (d\<lparr>game_players := game_players d @ [?row],
               next_player_id := Suc (next_player_id d)\<rparr>)"
      using inv by (simp add: one_admin_per_game_def list_all_iff admin_count_append)
    then show ?thesis
      using None \<open>getGameByJoinCode json_parse to_String d code = Some game\<close> by (simp add: requestJoinGame_def)
  qed
qed

lemma one_admin_createGame:
  assumes inv: "one_admin_per_game d" and alloc: "ids_allocated d"
  shows "one_admin_per_game (snd (createGame json_parse to_String d rnd name creatorEmail))"
proof (cases "generateJoinCode d rnd")
  case (Inl e)
  then show ?thesis using inv by (simp add: createGame_def)
next
  case (Inr code)
  have g: "\<forall>g\<in>set (games d). g_id g \<noteq> next_game_id d"
    using alloc by (auto simp: ids_allocated_def list_all_iff)
  have p: "\<forall>p\<in>set (game_players d). game_id p \<noteq> next_game_id d"
    using alloc by (auto simp: ids_allocated_def list_all_iff)
  have g': "\<forall>g\<in>set (games d). next_game_id d \<noteq> g_id g"
    using g by auto
  have zero: "admin_count d (next_game_id d) = 0"
    using p by (simp add: admin_count_def filter_empty_conv)
  show ?thesis
    using inv g g' zero
    by (simp add: createGame_unfold [OF Inr g p] one_admin_per_game_def list_all_iff
        admin_count_def)
qed

lemma filter_admin_map_confirmed:
  "\<forall>p\<in>set ps. game_id p = gameId \<and> player_email p = targetEmail \<longrightarrow> p_status p \<noteq> admin \<Longrightarrow>
   filter (\<lambda>p. game_id p = g \<and> p_status p = admin)
     (map (\<lambda>p. if game_id p = gameId \<and> player_email p = targetEmail
               then p\<lparr>p_status := confirmed\<rparr> else p) ps)
   = filter (\<lambda>p. game_id p = g \<and> p_status p = admin) ps"
  by (induction ps) auto

lemma one_admin_approvePlayer:
  assumes inv: "one_admin_per_game d" and target: "\<not> isAdmin d gameId targetEmail"
  shows "one_admin_per_game (snd (approvePlayer d gameId targetEmail adminEmail))"
proof (cases "isAdmin d gameId adminEmail")
  case False
  then show ?thesis using inv by (simp add: approvePlayer_def)
next
  case True
  let ?f = "\<lambda>p. if game_id p = gameId \<and> player_email p = targetEmail
                 then p\<lparr>p_status := confirmed\<rparr> else p"
  have na: "\<forall>p\<in>set (game_players d).
              game_id p = gameId \<and> player_email p = targetEmail \<longrightarrow> p_status p \<noteq> admin"
    using target by (auto simp: isAdmin_def filter_empty_conv)
  have "filter (\<lambda>p. game_id p = g \<and> p_status p = admin) (map ?f (game_players d))
        = filter (\<lambda>p. game_id p = g \<and> p_status p = admin) (game_players d)" for g
    using na by (rule filter_admin_map_confirmed)
  then have "admin_count (d\<lparr>game_players := map ?f (game_players d)\<rparr>) g = admin_count d g" for g
    by (simp add: admin_count_def)
  then have "one_admin_per_game (d\<lparr>game_players := map ?f (game_players d)\<rparr>)"
    using inv by (simp add: one_admin_per_game_def list_all_iff)
  then show ?thesis using True by (simp add: approvePlayer_def Let_def)
qed

lemma one_admin_preserved_elsewhere:
  assumes wf: "wf_db d" and inv: "one_admin_per_game d"
  shows "one_admin_per_game (snd (createGame json_parse to_String d rnd name creatorEmail))"
    and "one_admin_per_game (snd (requestJoinGame json_parse to_String d code email))"
    and "one_admin_per_game (snd (rejectPlayer d gameId targetEmail adminEmail))"
    and "one_admin_per_game (snd (removePlayer d gameId targetEmail adminEmail))"
    and "one_admin_per_game (snd (leaveGame d gameId email))"
    and "one_admin_per_game (snd (deleteGame d gameId adminEmail))"
    and "\<not> isAdmin d gameId targetEmail \<Longrightarrow>
         one_admin_per_game (snd (approvePlayer d gameId targetEmail adminEmail))"
proof -
  have ids: "distinct (map p_id (game_players d))" and alloc: "ids_allocated d"
    using wf by (simp_all add: wf_db_def)
  show "one_admin_per_game (snd (createGame json_parse to_String d rnd name creatorEmail))"
    using inv alloc by (rule one_admin_createGame)
  show "one_admin_per_game (snd (requestJoinGame json_parse to_String d code email))"
    using inv by (rule one_admin_requestJoinGame)
  show "one_admin_per_game (snd (rejectPlayer d gameId targetEmail adminEmail))"
    using inv by (rule one_admin_rejectPlayer)
  show "one_admin_per_game (snd (removePlayer d gameId targetEmail adminEmail))"
    using inv ids by (rule one_admin_removePlayer)
  show "one_admin_per_game (snd (leaveGame d gameId email))"
    using inv ids by (rule one_admin_leaveGame)
  show "one_admin_per_game (snd (deleteGame d gameId adminEmail))"
    using inv by (rule one_admin_deleteGame)
  show "one_admin_per_game (snd (approvePlayer d gameId targetEmail adminEmail))"
    if "\<not> isAdmin d gameId targetEmail"
    using inv that by (rule one_admin_approvePlayer)
qed

text \<open>
  C1. The invariant "each session has exactly one membership row with role admin"
  is kept by every operation but one. \<open>approvePlayer\<close> has no guard on the role of
  the target: an admin who approves their own address turns the only admin row of
  the session into a confirmed row. The call succeeds and the session is left with no
  admin at all, although the invariant held before.
\<close>

theorem approvePlayer_admin_target_drops_admin:
  "wf_db db_approve \<and> one_admin_per_game db_approve
   \<and> isAdmin db_approve 1 ''a@x.com''
   \<and> fst (approvePlayer db_approve 1 ''a@x.com'' ''a@x.com'') = Inr ()
   \<and> admin_count (snd (approvePlayer db_approve 1 ''a@x.com'' ''a@x.com'')) 1 = 0
   \<and> \<not> one_admin_per_game (snd (approvePlayer db_approve 1 ''a@x.com'' ''a@x.com''))"
  by (simp add: wf_db_def ids_allocated_def membership_key_def one_admin_per_game_def
      admin_count_def approvePlayer_def isAdmin_def db_approve_def Let_def)

end
